theory Spec2Isabelle
  imports Main "HOL-Library.Word" "HOL-Library.Signed_Division"
begin

section \<open>Machine integers and library functions\<close>

text \<open>
  Go's fixed-width integers are words: \<open>+\<close> and \<open>-\<close> wrap around, \<open>sint\<close> reads a
  signed value, \<open>unat\<close> an unsigned one, \<open><s\<close> and \<open>\<le>s\<close> compare signed values.
\<close>

type_synonym int32 = "32 word"
type_synonym int64 = "64 word"
type_synonym uint32 = "32 word"
type_synonym uint64 = "64 word"

text \<open>The verb \<open>%d\<close> of \<open>fmt.Sprintf\<close>: decimal digits, a minus sign for a negative value.\<close>

definition digit_char :: "nat \<Rightarrow> char" where
  "digit_char d = ''0123456789'' ! d"

function fmt_nat :: "nat \<Rightarrow> string" where
  "fmt_nat n = (if n < 10 then [digit_char n] else fmt_nat (n div 10) @ [digit_char (n mod 10)])"
  by pat_completeness auto
termination
  by (relation "measure id") auto

declare fmt_nat.simps [simp del]

definition fmt_int :: "int \<Rightarrow> string" where
  "fmt_int i = (if i < 0 then CHR ''-'' # fmt_nat (nat (- i)) else fmt_nat (nat i))"

section \<open>Transactions (package blockchain, transaction file)\<close>

record TxInput =
  TxID :: string
  OutputIndex :: int64
  PublicKey :: string
  InSignature :: string

record TxOutput =
  Value :: int64
  Address :: string

text \<open>
  The fields \<open>Timestamp\<close> and \<open>Signature\<close> of the Go struct \<open>Transaction\<close> are
  \<open>TxTimestamp\<close> and \<open>Signature\<close> here; the field \<open>Signature\<close> of \<open>TxInput\<close> is
  \<open>InSignature\<close> (record fields share one name space).
\<close>

record Transaction =
  ID :: string
  Inputs :: "TxInput list"
  Outputs :: "TxOutput list"
  TxTimestamp :: int64
  Signature :: string

text \<open>
  The two functions of Go's standard library that the package calls and does not define:
  \<open>sha256_hex s\<close> is \<open>hex.EncodeToString(sha256.Sum256([]byte(s)))\<close>, and
  \<open>json_Marshal tx\<close> is \<open>json.Marshal\<close> of a transaction. Every definition below takes
  them as the parameter \<open>L\<close>.
\<close>

record stdlib =
  sha256_hex :: "string \<Rightarrow> string"
  json_Marshal :: "Transaction \<Rightarrow> string"

definition calculateID :: "stdlib \<Rightarrow> Transaction \<Rightarrow> string" where
  "calculateID L tx =
     sha256_hex L (json_Marshal L
       \<lparr>ID = [], Inputs = Inputs tx, Outputs = Outputs tx,
        TxTimestamp = TxTimestamp tx, Signature = Signature tx\<rparr>)"

text \<open>\<open>now\<close> is the value of \<open>time.Now().Unix()\<close> at the call.\<close>

definition NewTransaction :: "stdlib \<Rightarrow> int64 \<Rightarrow> TxInput list \<Rightarrow> TxOutput list \<Rightarrow> Transaction" where
  "NewTransaction L now inputs outputs =
     (let tx = \<lparr>ID = [], Inputs = inputs, Outputs = outputs, TxTimestamp = now, Signature = []\<rparr>
      in tx\<lparr>ID := calculateID L tx\<rparr>)"

definition NewCoinbaseTransaction :: "stdlib \<Rightarrow> int64 \<Rightarrow> string \<Rightarrow> int64 \<Rightarrow> Transaction" where
  "NewCoinbaseTransaction L now toAddress reward =
     (let txOut = \<lparr>Value = reward, Address = toAddress\<rparr>;
          tx = \<lparr>ID = [], Inputs = [], Outputs = [txOut], TxTimestamp = now, Signature = []\<rparr>
      in tx\<lparr>ID := calculateID L tx\<rparr>)"

definition IsCoinbase :: "Transaction \<Rightarrow> bool" where
  "IsCoinbase tx = (length (Inputs tx) = 0)"

datatype tx_error =
    InvalidTransactionID      \<comment> \<open>"invalid transaction ID"\<close>
  | CoinbaseOutputCount       \<comment> \<open>"coinbase transaction must have exactly one output"\<close>
  | NoInputs                  \<comment> \<open>"transaction must have at least one input"\<close>
  | NoOutputs                 \<comment> \<open>"transaction must have at least one output"\<close>
  | NonPositiveOutput         \<comment> \<open>"output value must be positive"\<close>

text \<open>The loop over the outputs at the end of \<open>Transaction.Validate\<close>.\<close>

fun validate_outputs :: "TxOutput list \<Rightarrow> tx_error + unit" where
  "validate_outputs [] = Inr ()"
| "validate_outputs (output # rest) =
     (if Value output \<le>s 0 then Inl NonPositiveOutput else validate_outputs rest)"

definition Transaction_Validate :: "stdlib \<Rightarrow> Transaction \<Rightarrow> tx_error + unit" where
  "Transaction_Validate L tx =
     (if ID tx \<noteq> calculateID L tx then Inl InvalidTransactionID
      else if IsCoinbase tx then
        (if length (Outputs tx) \<noteq> 1 then Inl CoinbaseOutputCount else Inr ())
      else if length (Inputs tx) = 0 then Inl NoInputs
      else if length (Outputs tx) = 0 then Inl NoOutputs
      else validate_outputs (Outputs tx))"

section \<open>Merkle root (block file)\<close>

text \<open>
  The \<open>for i := 0; i < len(hashes); i += 2\<close> loop of \<open>buildMerkleTree\<close>, with the
  loop variable \<open>i\<close> and the slice \<open>newLevel\<close> as arguments. Both reads of \<open>hashes\<close>
  are guarded by the loop condition and the test \<open>i+1 < len(hashes)\<close>.
\<close>

function merkle_level :: "stdlib \<Rightarrow> string list \<Rightarrow> nat \<Rightarrow> string list \<Rightarrow> string list" where
  "merkle_level L hashes i newLevel =
     (if i < length hashes then
        (let combined = (if i + 1 < length hashes then hashes ! i @ hashes ! (i + 1)
                         else hashes ! i @ hashes ! i)
         in merkle_level L hashes (i + 2) (newLevel @ [sha256_hex L combined]))
      else newLevel)"
  by pat_completeness auto
termination
  by (relation "measure (\<lambda>(L, hashes, i, newLevel). length hashes - i)") auto

declare merkle_level.simps [simp del]

lemma length_merkle_level:
  "length (merkle_level L hashes i newLevel) = length newLevel + (length hashes - i + 1) div 2"
proof (induction L hashes i newLevel rule: merkle_level.induct)
  case (1 L hashes i newLevel)
  show ?case
  proof (cases "i < length hashes")
    case True
    then have "(length hashes - i + 1) div 2 = 1 + (length hashes - (i + 2) + 1) div 2"
      by arith
    with True 1 show ?thesis
      by (subst merkle_level.simps) (simp add: Let_def)
  next
    case False
    then show ?thesis
      by (subst merkle_level.simps) simp
  qed
qed

function buildMerkleTree :: "stdlib \<Rightarrow> string list \<Rightarrow> string" where
  "buildMerkleTree L hashes =
     (if length hashes = 0 then []
      else if length hashes = 1 then hashes ! 0
      else buildMerkleTree L (merkle_level L hashes 0 []))"
  by pat_completeness auto
termination
proof (relation "measure (\<lambda>(L, hashes). length hashes)")
  fix L :: stdlib and hashes :: "string list"
  assume "length hashes \<noteq> 0" "length hashes \<noteq> 1"
  then have "(length hashes + 1) div 2 < length hashes"
    by arith
  then show "((L, merkle_level L hashes 0 []), (L, hashes)) \<in> measure (\<lambda>(L, hashes). length hashes)"
    by (simp add: length_merkle_level)
qed simp

declare buildMerkleTree.simps [simp del]

text \<open>
  The merkle root as the specification words it: pair adjacent leaves from the left,
  hash each concatenated pair, pair a last leaf without a partner with itself, and
  repeat on the new level until one hash is left.
\<close>

fun pair_up :: "(string \<Rightarrow> string) \<Rightarrow> string list \<Rightarrow> string list" where
  "pair_up h (x # y # rest) = h (x @ y) # pair_up h rest"
| "pair_up h [x] = [h (x @ x)]"
| "pair_up h [] = []"

lemma length_pair_up: "length (pair_up h xs) = (length xs + 1) div 2"
  by (induction h xs rule: pair_up.induct) auto

function compute_root :: "(string \<Rightarrow> string) \<Rightarrow> string list \<Rightarrow> string" where
  "compute_root h [] = []"
| "compute_root h [x] = x"
| "compute_root h (x # y # rest) = compute_root h (pair_up h (x # y # rest))"
  by pat_completeness auto
termination
  by (relation "measure (\<lambda>(h, xs). length xs)") (auto simp: length_pair_up)

section \<open>Blocks (block file)\<close>

record BlockHeader =
  Version :: int32
  PreviousHash :: string
  MerkleRoot :: string
  Timestamp :: int64
  Difficulty :: uint32
  Nonce :: uint64
  Hash :: string
  Height :: int64

record Block =
  Header :: BlockHeader
  Transactions :: "Transaction list"

definition calculateHash :: "stdlib \<Rightarrow> Block \<Rightarrow> string" where
  "calculateHash L b =
     (let headerData =
            fmt_int (sint (Version (Header b))) @
            PreviousHash (Header b) @
            MerkleRoot (Header b) @
            fmt_int (sint (Timestamp (Header b))) @
            fmt_nat (unat (Difficulty (Header b))) @
            fmt_nat (unat (Nonce (Header b))) @
            fmt_int (sint (Height (Header b)))
      in sha256_hex L headerData)"

definition calculateMerkleRoot :: "stdlib \<Rightarrow> Block \<Rightarrow> string" where
  "calculateMerkleRoot L b =
     (if length (Transactions b) = 0 then []
      else buildMerkleTree L (map ID (Transactions b)))"

definition NewBlock :: "stdlib \<Rightarrow> int64 \<Rightarrow> Transaction list \<Rightarrow> string \<Rightarrow> int64 \<Rightarrow> Block" where
  "NewBlock L now transactions previousHash height =
     (let block =
            \<lparr>Header = \<lparr>Version = 1, PreviousHash = previousHash, MerkleRoot = [],
                       Timestamp = now, Difficulty = 0, Nonce = 0, Hash = [],
                       Height = height\<rparr>,
             Transactions = transactions\<rparr>
      in block\<lparr>Header := (Header block)\<lparr>MerkleRoot := calculateMerkleRoot L block\<rparr>\<rparr>)"

text \<open>
  \<open>NewGenesisBlock\<close> reads the clock twice: \<open>now_tx\<close> in \<open>NewCoinbaseTransaction\<close>,
  \<open>now\<close> for the header.
\<close>

definition NewGenesisBlock :: "stdlib \<Rightarrow> int64 \<Rightarrow> int64 \<Rightarrow> Block" where
  "NewGenesisBlock L now_tx now =
     (let coinbase = NewCoinbaseTransaction L now_tx ''genesis'' 5000000000;
          genesis =
            \<lparr>Header = \<lparr>Version = 1, PreviousHash = replicate 64 CHR ''0'', MerkleRoot = [],
                       Timestamp = now, Difficulty = 1, Nonce = 0, Hash = [],
                       Height = 0\<rparr>,
             Transactions = [coinbase]\<rparr>;
          genesis = genesis\<lparr>Header := (Header genesis)\<lparr>MerkleRoot := calculateMerkleRoot L genesis\<rparr>\<rparr>
      in genesis\<lparr>Header := (Header genesis)\<lparr>Hash := calculateHash L genesis\<rparr>\<rparr>)"

lemma unat_incr_below:
  fixes i d :: uint32
  assumes less: "i < d"
  shows "unat (i + 1) = Suc (unat i)"
proof -
  from less have "unat i < unat d"
    by (simp add: word_less_nat_alt)
  with unsigned_less [of d, where ?'a = nat] have "unat i + unat (1 :: uint32) < 2 ^ LENGTH(32)"
    by simp
  then have "unat (i + 1) = unat i + unat (1 :: uint32)"
    by (rule unat_add_lem [THEN iffD1])
  then show ?thesis by simp
qed

text \<open>The loop of \<open>getTarget\<close>, with the counter \<open>i\<close> a \<open>uint32\<close> as in the source.\<close>

function getTarget_loop :: "uint32 \<Rightarrow> uint32 \<Rightarrow> string \<Rightarrow> string" where
  "getTarget_loop difficulty i target =
     (if i < difficulty then getTarget_loop difficulty (i + 1) (target @ ''0'') else target)"
  by pat_completeness auto
termination
proof (relation "measure (\<lambda>(difficulty, i, target). unat difficulty - unat i)")
  fix difficulty i :: uint32 and target :: string
  assume less: "i < difficulty"
  then have "unat i < unat difficulty"
    by (simp add: word_less_nat_alt)
  moreover from less have "unat (i + 1) = Suc (unat i)"
    by (rule unat_incr_below)
  ultimately show "((difficulty, i + 1, target @ ''0''), (difficulty, i, target))
      \<in> measure (\<lambda>(difficulty, i, target). unat difficulty - unat i)"
    by simp
qed simp

declare getTarget_loop.simps [simp del]

definition getTarget :: "uint32 \<Rightarrow> string" where
  "getTarget difficulty = getTarget_loop difficulty 0 []"

text \<open>
  A run of Go code that panics ends in \<open>Inl\<close> of the panic. The slice expression
  \<open>hash[:len(target)]\<close> panics when \<open>len(target) > len(hash)\<close>.
\<close>

datatype panic = SliceOutOfRange | IndexOutOfRange

definition isHashValid :: "string \<Rightarrow> string \<Rightarrow> panic + bool" where
  "isHashValid hash target =
     (if length target > length hash then Inl SliceOutOfRange
      else Inr (take (length target) hash = target))"

text \<open>
  The \<open>for\<close> loop of \<open>Mine\<close> has no bound: a run that never finds a hash is the value
  \<open>None\<close>.
\<close>

partial_function (option) Mine_loop :: "stdlib \<Rightarrow> string \<Rightarrow> Block \<Rightarrow> (panic + Block) option" where
  "Mine_loop L target b =
     (let b1 = b\<lparr>Header := (Header b)\<lparr>Nonce := Nonce (Header b) + 1\<rparr>\<rparr>;
          hash = calculateHash L b1
      in case isHashValid hash target of
           Inl p \<Rightarrow> Some (Inl p)
         | Inr valid \<Rightarrow>
             if valid then Some (Inr (b1\<lparr>Header := (Header b1)\<lparr>Hash := hash\<rparr>\<rparr>))
             else Mine_loop L target b1)"

definition Mine :: "stdlib \<Rightarrow> uint32 \<Rightarrow> Block \<Rightarrow> (panic + Block) option" where
  "Mine L d b =
     (let b0 = b\<lparr>Header := (Header b)\<lparr>Difficulty := d\<rparr>\<rparr>;
          target = getTarget d
      in Mine_loop L target b0)"

datatype block_error =
    InvalidBlockHash              \<comment> \<open>"invalid block hash"\<close>
  | InvalidPreviousHash           \<comment> \<open>"invalid previous hash"\<close>
  | InvalidBlockHeight            \<comment> \<open>"invalid block height"\<close>
  | InvalidMerkleRoot             \<comment> \<open>"invalid merkle root"\<close>
  | NoTransactions                \<comment> \<open>"block must contain at least one transaction"\<close>
  | FirstNotCoinbase              \<comment> \<open>"first transaction must be coinbase"\<close>
  | InvalidTransaction tx_error   \<comment> \<open>"invalid transaction: %v"\<close>
  | NotOneCoinbase                \<comment> \<open>"block must contain exactly one coinbase transaction"\<close>

text \<open>
  The loop of \<open>Block.Validate\<close> over the transactions: it counts the coinbase
  transactions in \<open>coinbaseCount\<close> and returns at the first transaction that fails
  \<open>Transaction.Validate\<close>.
\<close>

fun validate_loop :: "stdlib \<Rightarrow> Transaction list \<Rightarrow> nat \<Rightarrow> block_error + nat" where
  "validate_loop L [] coinbaseCount = Inr coinbaseCount"
| "validate_loop L (tx # rest) coinbaseCount =
     (let coinbaseCount = (if IsCoinbase tx then coinbaseCount + 1 else coinbaseCount)
      in case Transaction_Validate L tx of
           Inl err \<Rightarrow> Inl (InvalidTransaction err)
         | Inr u \<Rightarrow> validate_loop L rest coinbaseCount)"

definition Block_Validate :: "stdlib \<Rightarrow> Block \<Rightarrow> Block option \<Rightarrow> block_error + unit" where
  "Block_Validate L b previousBlock =
     (if Hash (Header b) \<noteq> calculateHash L b then Inl InvalidBlockHash
      else if (case previousBlock of None \<Rightarrow> False
               | Some p \<Rightarrow> PreviousHash (Header b) \<noteq> Hash (Header p)) then Inl InvalidPreviousHash
      else if (case previousBlock of None \<Rightarrow> False
               | Some p \<Rightarrow> Height (Header b) \<noteq> Height (Header p) + 1) then Inl InvalidBlockHeight
      else if MerkleRoot (Header b) \<noteq> calculateMerkleRoot L b then Inl InvalidMerkleRoot
      else if length (Transactions b) = 0 then Inl NoTransactions
      else if \<not> IsCoinbase (Transactions b ! 0) then Inl FirstNotCoinbase
      else case validate_loop L (Transactions b) 0 of
             Inl err \<Rightarrow> Inl err
           | Inr coinbaseCount \<Rightarrow> if coinbaseCount \<noteq> 1 then Inl NotOneCoinbase else Inr ())"

section \<open>The chain (blockchain file)\<close>

text \<open>
  The struct \<open>Blockchain\<close> without its mutex. The Go map \<open>utxoSet\<close> tells a missing key
  from a key with an empty slice, as the option does here.
\<close>

record Blockchain =
  blocks :: "Block list"
  difficulty :: uint32
  utxoSet :: "string \<rightharpoonup> TxOutput list"

text \<open>The loop of \<open>updateUTXOSet\<close> over the inputs of one transaction.\<close>

fun spend_inputs :: "(string \<rightharpoonup> TxOutput list) \<Rightarrow> TxInput list \<Rightarrow> (string \<rightharpoonup> TxOutput list)" where
  "spend_inputs u [] = u"
| "spend_inputs u (input # rest) =
     (case u (PublicKey input) of
        None \<Rightarrow> spend_inputs u rest
      | Some outputs \<Rightarrow>
          if length outputs > 0 then
            (let remaining = drop 1 outputs;
                 u1 = u(PublicKey input \<mapsto> remaining)
             in if length remaining = 0 then spend_inputs (u1(PublicKey input := None)) rest
                else spend_inputs u1 rest)
          else spend_inputs u rest)"

text \<open>The loop over the outputs: \<open>append\<close> to the bucket, a missing bucket being nil.\<close>

fun add_outputs :: "(string \<rightharpoonup> TxOutput list) \<Rightarrow> TxOutput list \<Rightarrow> (string \<rightharpoonup> TxOutput list)" where
  "add_outputs u [] = u"
| "add_outputs u (output # rest) =
     add_outputs
       (u(Address output \<mapsto> (case u (Address output) of None \<Rightarrow> [] | Some bucket \<Rightarrow> bucket) @ [output]))
       rest"

fun update_utxo_txs :: "(string \<rightharpoonup> TxOutput list) \<Rightarrow> Transaction list \<Rightarrow> (string \<rightharpoonup> TxOutput list)" where
  "update_utxo_txs u [] = u"
| "update_utxo_txs u (tx # rest) =
     (let u1 = (if \<not> IsCoinbase tx then spend_inputs u (Inputs tx) else u);
          u2 = add_outputs u1 (Outputs tx)
      in update_utxo_txs u2 rest)"

definition updateUTXOSet :: "Blockchain \<Rightarrow> Block \<Rightarrow> Blockchain" where
  "updateUTXOSet bc block = bc\<lparr>utxoSet := update_utxo_txs (utxoSet bc) (Transactions block)\<rparr>"

definition NewBlockchain :: "stdlib \<Rightarrow> int64 \<Rightarrow> int64 \<Rightarrow> Blockchain" where
  "NewBlockchain L now_tx now =
     (let genesis = NewGenesisBlock L now_tx now;
          bc = \<lparr>blocks = [genesis], difficulty = 4, utxoSet = Map.empty\<rparr>
      in updateUTXOSet bc genesis)"

definition adjustDifficulty :: "Blockchain \<Rightarrow> Blockchain" where
  "adjustDifficulty bc =
     (if length (blocks bc) < 2 then bc
      else
        (let lastBlock = blocks bc ! (length (blocks bc) - 1);
             prevBlock = blocks bc ! (length (blocks bc) - 2);
             timeDiff = Timestamp (Header lastBlock) - Timestamp (Header prevBlock)
         in if timeDiff <s 30 then bc\<lparr>difficulty := difficulty bc + 1\<rparr>
            else if 60 <s timeDiff \<and> difficulty bc > 1 then bc\<lparr>difficulty := difficulty bc - 1\<rparr>
            else bc))"

definition isValidInput :: "Blockchain \<Rightarrow> TxInput \<Rightarrow> bool" where
  "isValidInput bc input = True"

text \<open>The inner loop of \<open>validateTransactions\<close>: false at the first input refused.\<close>

fun inputs_valid :: "Blockchain \<Rightarrow> TxInput list \<Rightarrow> bool" where
  "inputs_valid bc [] = True"
| "inputs_valid bc (input # rest) = (if \<not> isValidInput bc input then False else inputs_valid bc rest)"

text \<open>
  The outer loop, with the index \<open>i\<close> of the transaction; the error carries the id of
  the transaction ("invalid input in transaction %s").
\<close>

datatype input_error = InvalidInput string

fun validateTransactions_loop :: "Blockchain \<Rightarrow> Transaction list \<Rightarrow> nat \<Rightarrow> input_error + unit" where
  "validateTransactions_loop bc [] i = Inr ()"
| "validateTransactions_loop bc (tx # rest) i =
     (if i = 0 then validateTransactions_loop bc rest (i + 1)
      else if \<not> inputs_valid bc (Inputs tx) then Inl (InvalidInput (ID tx))
      else validateTransactions_loop bc rest (i + 1))"

definition validateTransactions :: "Blockchain \<Rightarrow> Block \<Rightarrow> input_error + unit" where
  "validateTransactions bc block = validateTransactions_loop bc (Transactions block) 0"

datatype add_error =
    BlockValidationFailed block_error         \<comment> \<open>"block validation failed: %v"\<close>
  | TransactionValidationFailed input_error   \<comment> \<open>"transaction validation failed: %v"\<close>

text \<open>
  \<open>AddBlock\<close> returns the error value (\<open>Inr ()\<close> for nil) and the chain as the call leaves
  it. \<open>None\<close> is a run whose mining never ends, \<open>Some (Inl p)\<close> a run that panics.
  Go's \<open>%\<close> truncates towards zero, as \<open>smod\<close> does.
\<close>

definition AddBlock ::
    "stdlib \<Rightarrow> int64 \<Rightarrow> Blockchain \<Rightarrow> Transaction list \<Rightarrow> (panic + (add_error + unit) \<times> Blockchain) option" where
  "AddBlock L now bc transactions =
     (if length (blocks bc) = 0 then Some (Inl IndexOutOfRange)
      else
        (let lastBlock = blocks bc ! (length (blocks bc) - 1);
             newBlock = NewBlock L now transactions (Hash (Header lastBlock)) (Height (Header lastBlock) + 1)
         in case Mine L (difficulty bc) newBlock of
              None \<Rightarrow> None
            | Some (Inl p) \<Rightarrow> Some (Inl p)
            | Some (Inr newBlock) \<Rightarrow>
                (case Block_Validate L newBlock (Some lastBlock) of
                   Inl err \<Rightarrow> Some (Inr (Inl (BlockValidationFailed err), bc))
                 | Inr u \<Rightarrow>
                     (case validateTransactions bc newBlock of
                        Inl err \<Rightarrow> Some (Inr (Inl (TransactionValidationFailed err), bc))
                      | Inr u \<Rightarrow>
                          (let bc1 = bc\<lparr>blocks := blocks bc @ [newBlock]\<rparr>;
                               bc2 = updateUTXOSet bc1 newBlock;
                               bc3 = (if sint (Height (Header newBlock)) smod 10 = 0
                                      then adjustDifficulty bc2 else bc2)
                           in Some (Inr (Inr (), bc3)))))))"

text \<open>
  The loop of \<open>ValidateChain\<close> from \<open>i = 1\<close>; the error carries the index of the block
  ("block %d validation failed: %v").
\<close>

function ValidateChain_loop :: "stdlib \<Rightarrow> Block list \<Rightarrow> nat \<Rightarrow> (nat \<times> block_error) + unit" where
  "ValidateChain_loop L bs i =
     (if i < length bs then
        (let currentBlock = bs ! i;
             previousBlock = bs ! (i - 1)
         in case Block_Validate L currentBlock (Some previousBlock) of
              Inl err \<Rightarrow> Inl (i, err)
            | Inr u \<Rightarrow> ValidateChain_loop L bs (i + 1))
      else Inr ())"
  by pat_completeness auto
termination
  by (relation "measure (\<lambda>(L, bs, i). length bs - i)") auto

declare ValidateChain_loop.simps [simp del]

definition ValidateChain :: "stdlib \<Rightarrow> Blockchain \<Rightarrow> (nat \<times> block_error) + unit" where
  "ValidateChain L bc = ValidateChain_loop L (blocks bc) 1"


definition FindUTXO :: "Blockchain \<Rightarrow> string \<Rightarrow> TxOutput list" where
  "FindUTXO bc address = (case utxoSet bc address of Some outputs \<Rightarrow> outputs | None \<Rightarrow> [])"




section \<open>Failure kinds of the specification\<close>

text \<open>
  The specification names the failures of block validation by kind; the source reports
  them as messages. \<open>kind_of\<close> gives the kind of each message: a wrong previous hash and a
  wrong height are both a chain linkage error.
\<close>

datatype failure_kind =
    HashMismatch | ChainLinkageError | MerkleMismatch | EmptyBlock
  | MissingCoinbase | TransactionInvalid | MultipleCoinbase

fun kind_of :: "block_error \<Rightarrow> failure_kind" where
  "kind_of InvalidBlockHash = HashMismatch"
| "kind_of InvalidPreviousHash = ChainLinkageError"
| "kind_of InvalidBlockHeight = ChainLinkageError"
| "kind_of InvalidMerkleRoot = MerkleMismatch"
| "kind_of NoTransactions = EmptyBlock"
| "kind_of FirstNotCoinbase = MissingCoinbase"
| "kind_of (InvalidTransaction err) = TransactionInvalid"
| "kind_of NotOneCoinbase = MultipleCoinbase"

section \<open>Auxiliary notions\<close>

text \<open>
  \<open>mined_from L target b b'\<close>: the block \<open>b'\<close> is \<open>b\<close> with another nonce and with the
  hash of its own header stored, and that hash starts with \<open>target\<close>.
\<close>

definition mined_from :: "stdlib \<Rightarrow> string \<Rightarrow> Block \<Rightarrow> Block \<Rightarrow> bool" where
  "mined_from L target b b' \<longleftrightarrow>
     Transactions b' = Transactions b
     \<and> Version (Header b') = Version (Header b)
     \<and> PreviousHash (Header b') = PreviousHash (Header b)
     \<and> MerkleRoot (Header b') = MerkleRoot (Header b)
     \<and> Timestamp (Header b') = Timestamp (Header b)
     \<and> Difficulty (Header b') = Difficulty (Header b)
     \<and> Height (Header b') = Height (Header b)
     \<and> Hash (Header b') = calculateHash L b'
     \<and> length target \<le> length (Hash (Header b'))
     \<and> take (length target) (Hash (Header b')) = target"

text \<open>
  The block that \<open>AddBlock\<close> assembles on the last block of the chain, before mining.
\<close>

definition candidate :: "stdlib \<Rightarrow> int64 \<Rightarrow> Blockchain \<Rightarrow> Transaction list \<Rightarrow> Block" where
  "candidate L now bc transactions =
     NewBlock L now transactions (Hash (Header (last (blocks bc)))) (Height (Header (last (blocks bc))) + 1)"

text \<open>
  The index as its readers see it: the bucket of an address, empty for a missing key.
\<close>

definition bucket_of :: "(string \<rightharpoonup> TxOutput list) \<Rightarrow> string \<Rightarrow> TxOutput list" where
  "bucket_of u address = (case u address of Some outputs \<Rightarrow> outputs | None \<Rightarrow> [])"

text \<open>
  The update of the index by one transaction as the specification words it, for the bucket
  of one address: a transaction that is not a coinbase removes one entry per input of that
  spender (as far as entries are left), and every output to the address is appended.
\<close>

definition bucket_after_tx :: "string \<Rightarrow> TxOutput list \<Rightarrow> Transaction \<Rightarrow> TxOutput list" where
  "bucket_after_tx address bucket tx =
     (if IsCoinbase tx then bucket
      else drop (length (filter (\<lambda>input. PublicKey input = address) (Inputs tx))) bucket)
     @ filter (\<lambda>output. Address output = address) (Outputs tx)"

section \<open>An instance of the library functions for concrete runs\<close>

text \<open>
  A small hash and a small encoding, on which the definitions can be evaluated: the hash
  of a string is 64 copies of one hexadecimal digit, chosen by the sum of the character
  codes. The theorems below hold for every \<open>L\<close>; this instance only serves the examples.
\<close>

definition hex_char :: "nat \<Rightarrow> char" where
  "hex_char n = ''0123456789abcdef'' ! (n mod 16)"

definition char_sum :: "string \<Rightarrow> nat" where
  "char_sum s = sum_list (map of_char s)"

definition test_sha256_hex :: "string \<Rightarrow> string" where
  "test_sha256_hex s = replicate 64 (hex_char (char_sum s))"

definition test_json_Marshal :: "Transaction \<Rightarrow> string" where
  "test_json_Marshal tx =
     concat (map (\<lambda>i. TxID i @ PublicKey i) (Inputs tx)) @
     concat (map (\<lambda>out. fmt_int (sint (Value out)) @ Address out) (Outputs tx)) @
     fmt_int (sint (TxTimestamp tx)) @ Signature tx"

definition test_lib :: stdlib where
  "test_lib = \<lparr>sha256_hex = test_sha256_hex, json_Marshal = test_json_Marshal\<rparr>"

text \<open>
  A coinbase transaction, the genesis block, the block mined on it at difficulty 4 from
  the one coinbase transaction (nonce 2), and the block mined from no transaction.
\<close>

definition coinbase1 :: Transaction where
  "coinbase1 = NewCoinbaseTransaction test_lib 5 ''miner'' 50"

definition genesis0 :: Block where
  "genesis0 = NewGenesisBlock test_lib 5 5"

definition block1 :: Block where
  "block1 =
     \<lparr>Header = \<lparr>Version = 1, PreviousHash = replicate 64 CHR ''7'', MerkleRoot = replicate 64 CHR ''5'',
                Timestamp = 8, Difficulty = 4, Nonce = 2, Hash = replicate 64 CHR ''0'', Height = 1\<rparr>,
      Transactions = [coinbase1]\<rparr>"

definition block1_empty :: Block where
  "block1_empty =
     \<lparr>Header = \<lparr>Version = 1, PreviousHash = replicate 64 CHR ''7'', MerkleRoot = [],
                Timestamp = 8, Difficulty = 4, Nonce = 2, Hash = replicate 64 CHR ''0'', Height = 1\<rparr>,
      Transactions = []\<rparr>"

definition chain0 :: Blockchain where
  "chain0 = NewBlockchain test_lib 5 5"

definition chain2 :: Blockchain where
  "chain2 = \<lparr>blocks = [genesis0, block1], difficulty = 4, utxoSet = Map.empty\<rparr>"

text \<open>
  A transaction that spends one output of the genesis address, naming an output that no
  block holds, and the block mined on the genesis block from it and the coinbase
  transaction.
\<close>

definition spend1 :: Transaction where
  "spend1 =
     NewTransaction test_lib 5
       [\<lparr>TxID = ''nowhere'', OutputIndex = 3, PublicKey = ''genesis'', InSignature = []\<rparr>]
       [\<lparr>Value = 20, Address = ''bob''\<rparr>]"

definition block1_spend :: Block where
  "block1_spend =
     \<lparr>Header = \<lparr>Version = 1, PreviousHash = replicate 64 CHR ''7'', MerkleRoot = replicate 64 CHR ''0'',
                Timestamp = 8, Difficulty = 4, Nonce = 2, Hash = replicate 64 CHR ''0'', Height = 1\<rparr>,
      Transactions = [coinbase1, spend1]\<rparr>"

text \<open>
  A chain whose last block has height 9, and the block mined on it at time 128.
\<close>

definition tip9 :: Block where
  "tip9 =
     \<lparr>Header = \<lparr>Version = 1, PreviousHash = replicate 64 CHR ''0'', MerkleRoot = [],
                Timestamp = 100, Difficulty = 1, Nonce = 0, Hash = replicate 64 CHR ''a'', Height = 9\<rparr>,
      Transactions = []\<rparr>"

definition chain9 :: Blockchain where
  "chain9 = \<lparr>blocks = [tip9], difficulty = 1, utxoSet = Map.empty\<rparr>"

definition block10 :: Block where
  "block10 =
     \<lparr>Header = \<lparr>Version = 1, PreviousHash = replicate 64 CHR ''a'', MerkleRoot = replicate 64 CHR ''5'',
                Timestamp = 128, Difficulty = 1, Nonce = 2, Hash = replicate 64 CHR ''0'', Height = 10\<rparr>,
      Transactions = [coinbase1]\<rparr>"

text \<open>
  A coinbase transaction and a spending transaction whose single output has value 0.
\<close>

definition zero_coinbase :: Transaction where
  "zero_coinbase = NewCoinbaseTransaction test_lib 5 ''miner'' 0"

definition zero_spend :: Transaction where
  "zero_spend =
     NewTransaction test_lib 5
       [\<lparr>TxID = [], OutputIndex = 0, PublicKey = ''alice'', InSignature = []\<rparr>]
       [\<lparr>Value = 0, Address = ''bob''\<rparr>]"





section \<open>Evaluating the instance\<close>

lemma char_sum_simps:
  "char_sum [] = 0"
  "char_sum (c # s) = of_char c + char_sum s"
  "char_sum (s @ t) = char_sum s + char_sum t"
  "char_sum (replicate n c) = n * of_char c"
  by (simp_all add: char_sum_def sum_list_replicate)

lemmas fmt_nat_literal =
  fmt_nat.simps [of 0] fmt_nat.simps [of 1] fmt_nat.simps [of "Suc 0"] fmt_nat.simps [of "numeral k"] for k

lemmas test_lib_simps =
  test_lib_def test_sha256_hex_def test_json_Marshal_def hex_char_def char_sum_simps
  digit_char_def fmt_int_def fmt_nat_literal

lemmas eval_hash = calculateHash_def Let_def isHashValid_def test_lib_simps

lemma test_sha256_hex_length: "length (sha256_hex test_lib s) = 64"
  by (simp add: test_lib_def test_sha256_hex_def)

lemma buildMerkleTree_single: "buildMerkleTree L [leaf] = leaf"
  by (subst buildMerkleTree.simps) simp

lemma coinbase1_eq:
  "coinbase1 = \<lparr>ID = replicate 64 CHR ''5'', Inputs = [],
      Outputs = [\<lparr>Value = 50, Address = ''miner''\<rparr>], TxTimestamp = 5, Signature = []\<rparr>"
  by (simp add: coinbase1_def NewCoinbaseTransaction_def calculateID_def Let_def test_lib_simps)

lemma coinbase1_valid: "Transaction_Validate test_lib coinbase1 = Inr ()"
  by (simp add: coinbase1_eq Transaction_Validate_def IsCoinbase_def calculateID_def test_lib_simps)

lemma coinbase1_IsCoinbase: "IsCoinbase coinbase1"
  by (simp add: coinbase1_eq IsCoinbase_def)

lemma genesis0_eq:
  "genesis0 =
     \<lparr>Header = \<lparr>Version = 1, PreviousHash = replicate 64 CHR ''0'', MerkleRoot = replicate 64 CHR ''8'',
                Timestamp = 5, Difficulty = 1, Nonce = 0, Hash = replicate 64 CHR ''7'', Height = 0\<rparr>,
      Transactions = [\<lparr>ID = replicate 64 CHR ''8'', Inputs = [],
         Outputs = [\<lparr>Value = 5000000000, Address = ''genesis''\<rparr>], TxTimestamp = 5, Signature = []\<rparr>]\<rparr>"
  by (simp add: genesis0_def NewGenesisBlock_def NewCoinbaseTransaction_def calculateID_def
      calculateMerkleRoot_def buildMerkleTree_single calculateHash_def Let_def test_lib_simps)

lemma genesis0_fields:
  "Hash (Header genesis0) = replicate 64 CHR ''7''"
  "Height (Header genesis0) = 0"
  "Timestamp (Header genesis0) = 5"
  by (simp_all add: genesis0_eq)

lemma block1_fields:
  "Hash (Header block1) = replicate 64 CHR ''0''"
  "PreviousHash (Header block1) = replicate 64 CHR ''7''"
  "MerkleRoot (Header block1) = replicate 64 CHR ''5''"
  "Height (Header block1) = 1"
  "Timestamp (Header block1) = 8"
  "Transactions block1 = [coinbase1]"
  by (simp_all add: block1_def)

lemma block1_hash: "calculateHash test_lib block1 = replicate 64 CHR ''0''"
  by (simp add: block1_def eval_hash)

lemma block1_root: "calculateMerkleRoot test_lib block1 = replicate 64 CHR ''5''"
  by (simp add: block1_def calculateMerkleRoot_def buildMerkleTree_single coinbase1_eq)

section \<open>The merkle root\<close>

lemma merkle_level_pair_up:
  "merkle_level L hashes i newLevel = newLevel @ pair_up (sha256_hex L) (drop i hashes)"
proof (induction L hashes i newLevel rule: merkle_level.induct)
  case (1 L hashes i newLevel)
  show ?case
  proof (cases "i < length hashes")
    case False
    then show ?thesis
      by (subst merkle_level.simps) simp
  next
    case True
    note in_range = this
    show ?thesis
    proof (cases "i + 1 < length hashes")
      case True
      then have "drop i hashes = hashes ! i # hashes ! (i + 1) # drop (i + 2) hashes"
        by (simp add: Cons_nth_drop_Suc)
      with True in_range 1 show ?thesis
        by (subst merkle_level.simps) (simp add: Let_def)
    next
      case False
      with in_range have "drop i hashes = [hashes ! i]" and "drop (i + 2) hashes = []"
        by (simp_all flip: Cons_nth_drop_Suc)
      with False in_range 1 show ?thesis
        by (subst merkle_level.simps) (simp add: Let_def)
    qed
  qed
qed

lemma buildMerkleTree_compute_root:
  "buildMerkleTree L hashes = compute_root (sha256_hex L) hashes"
proof (induction L hashes rule: buildMerkleTree.induct)
  case (1 L hashes)
  show ?case
  proof (cases hashes)
    case Nil
    then show ?thesis
      by (subst buildMerkleTree.simps) simp
  next
    case (Cons x rest)
    note outer = this
    show ?thesis
    proof (cases rest)
      case Nil
      with outer show ?thesis
        by (subst buildMerkleTree.simps) simp
    next
      case (Cons y rest')
      with outer have two: "hashes = x # y # rest'"
        by simp
      then have "buildMerkleTree L hashes = buildMerkleTree L (merkle_level L hashes 0 [])"
        by (subst buildMerkleTree.simps) simp
      also have "\<dots> = compute_root (sha256_hex L) (merkle_level L hashes 0 [])"
        using two by (intro 1) simp_all
      also have "\<dots> = compute_root (sha256_hex L) hashes"
        using two by (simp add: merkle_level_pair_up)
      finally show ?thesis .
    qed
  qed
qed

text \<open>
  Claim C6. The merkle root is a function of the leaf sequence alone: the empty string for
  no leaf, the leaf itself for one leaf, and otherwise the root of the next level, which
  hashes the concatenation of each adjacent pair from the left and of a last unpaired
  leaf with itself. \<open>buildMerkleTree\<close> with its index loop computes what \<open>compute_root\<close>
  states in these words, and \<open>calculateMerkleRoot\<close> is that root of the transaction ids.
\<close>

theorem merkle_root_as_specified:
  "buildMerkleTree L hashes = compute_root (sha256_hex L) hashes
   \<and> buildMerkleTree L [] = []
   \<and> buildMerkleTree L [leaf] = leaf
   \<and> buildMerkleTree L (x # y # rest) = buildMerkleTree L (pair_up (sha256_hex L) (x # y # rest))
   \<and> calculateMerkleRoot L b = compute_root (sha256_hex L) (map ID (Transactions b))"
proof -
  have "calculateMerkleRoot L b = compute_root (sha256_hex L) (map ID (Transactions b))"
    by (cases "Transactions b") (simp_all add: calculateMerkleRoot_def buildMerkleTree_compute_root)
  then show ?thesis
    by (simp add: buildMerkleTree_compute_root)
qed

section \<open>Transaction validation\<close>

lemma validate_outputs_Inr:
  "validate_outputs outs = Inr () \<longleftrightarrow> (\<forall>out \<in> set outs. \<not> Value out \<le>s 0)"
  by (induction outs) auto

lemma validate_outputs_Inl:
  "validate_outputs outs \<noteq> Inr () \<Longrightarrow> validate_outputs outs = Inl NonPositiveOutput"
  by (induction outs) (auto split: if_splits)

text \<open>
  Claim C5 says that a transaction with a matching id and an output of value zero or less
  fails \<open>Transaction.Validate\<close>, coinbase or not. The coinbase branch of the source returns
  after the test on the number of outputs and never reads a value: the coinbase
  transaction that \<open>NewCoinbaseTransaction\<close> builds with reward 0 is accepted.
\<close>

theorem coinbase_zero_output_accepted:
  "ID zero_coinbase = calculateID test_lib zero_coinbase
   \<and> Outputs zero_coinbase = [\<lparr>Value = 0, Address = ''miner''\<rparr>]
   \<and> (0 :: int64) \<le>s 0
   \<and> Transaction_Validate test_lib zero_coinbase = Inr ()"
  by (simp add: zero_coinbase_def NewCoinbaseTransaction_def Transaction_Validate_def
      IsCoinbase_def calculateID_def Let_def)

text \<open>
  Claim C5, amended. A transaction that is not a coinbase, whose stored id matches the
  recomputed one and one of whose outputs has a value of zero or less, fails
  \<open>Transaction.Validate\<close> with the error on output values; a coinbase transaction with a
  matching id passes exactly when it has one output, whatever its value.
\<close>

theorem noncoinbase_nonpositive_output_rejected:
  "(\<not> IsCoinbase tx \<and> ID tx = calculateID L tx \<and> (\<exists>out \<in> set (Outputs tx). Value out \<le>s 0)
      \<longrightarrow> Transaction_Validate L tx = Inl NonPositiveOutput)
   \<and> (IsCoinbase tx \<and> ID tx = calculateID L tx
      \<longrightarrow> Transaction_Validate L tx =
            (if length (Outputs tx) = 1 then Inr () else Inl CoinbaseOutputCount))"
proof -
  have "Transaction_Validate L tx = Inl NonPositiveOutput"
    if "\<not> IsCoinbase tx" "ID tx = calculateID L tx" "\<exists>out \<in> set (Outputs tx). Value out \<le>s 0"
  proof -
    from that(3) have "validate_outputs (Outputs tx) \<noteq> Inr ()"
      by (auto simp: validate_outputs_Inr)
    then have "validate_outputs (Outputs tx) = Inl NonPositiveOutput"
      by (rule validate_outputs_Inl)
    moreover from that(3) have "Outputs tx \<noteq> []"
      by auto
    ultimately show ?thesis
      using that(1,2) by (simp add: Transaction_Validate_def IsCoinbase_def)
  qed
  then show ?thesis
    by (simp add: Transaction_Validate_def)
qed

text \<open>
  The amended claim at the spending transaction and the coinbase transaction with value 0.
\<close>

theorem noncoinbase_nonpositive_output_rejected_witness:
  "\<not> IsCoinbase zero_spend \<and> ID zero_spend = calculateID test_lib zero_spend
   \<and> (\<exists>out \<in> set (Outputs zero_spend). Value out \<le>s 0)
   \<and> Transaction_Validate test_lib zero_spend = Inl NonPositiveOutput
   \<and> IsCoinbase zero_coinbase \<and> ID zero_coinbase = calculateID test_lib zero_coinbase
   \<and> Transaction_Validate test_lib zero_coinbase = Inr ()"
proof -
  have spend: "\<not> IsCoinbase zero_spend" "ID zero_spend = calculateID test_lib zero_spend"
    "\<exists>out \<in> set (Outputs zero_spend). Value out \<le>s 0"
    by (simp_all add: zero_spend_def NewTransaction_def IsCoinbase_def calculateID_def Let_def)
  have cb: "IsCoinbase zero_coinbase" "ID zero_coinbase = calculateID test_lib zero_coinbase"
    "length (Outputs zero_coinbase) = 1"
    by (simp_all add: zero_coinbase_def NewCoinbaseTransaction_def IsCoinbase_def calculateID_def Let_def)
  from noncoinbase_nonpositive_output_rejected [of zero_spend test_lib]
    noncoinbase_nonpositive_output_rejected [of zero_coinbase test_lib] spend cb
  show ?thesis
    by simp
qed

section \<open>Block validation\<close>

lemma validate_loop_all_valid:
  "(\<forall>tx \<in> set txs. Transaction_Validate L tx = Inr ()) \<Longrightarrow>
   validate_loop L txs n = Inr (n + length (filter IsCoinbase txs))"
  by (induction txs arbitrary: n) (auto simp: Let_def)

lemma validate_loop_some_invalid:
  "\<not> (\<forall>tx \<in> set txs. Transaction_Validate L tx = Inr ()) \<Longrightarrow>
   \<exists>err. validate_loop L txs n = Inl (InvalidTransaction err)"
proof (induction txs arbitrary: n)
  case Nil
  then show ?case by simp
next
  case (Cons tx rest)
  show ?case
  proof (cases "Transaction_Validate L tx")
    case (Inl err)
    then show ?thesis by (simp add: Let_def)
  next
    case (Inr u)
    with Cons.prems have "\<not> (\<forall>tx \<in> set rest. Transaction_Validate L tx = Inr ())"
      by auto
    from Cons.IH [OF this] Inr show ?thesis
      by (simp add: Let_def)
  qed
qed

lemma Block_Validate_Inr_iff:
  "Block_Validate L b p = Inr () \<longleftrightarrow>
     Hash (Header b) = calculateHash L b
     \<and> (case p of None \<Rightarrow> True
         | Some q \<Rightarrow> PreviousHash (Header b) = Hash (Header q)
                     \<and> Height (Header b) = Height (Header q) + 1)
     \<and> MerkleRoot (Header b) = calculateMerkleRoot L b
     \<and> Transactions b \<noteq> []
     \<and> IsCoinbase (hd (Transactions b))
     \<and> (\<forall>tx \<in> set (Transactions b). Transaction_Validate L tx = Inr ())
     \<and> length (filter IsCoinbase (Transactions b)) = 1"
proof -
  let ?txs = "Transactions b"
  have first: "?txs \<noteq> [] \<Longrightarrow> ?txs ! 0 = hd ?txs"
    by (simp add: hd_conv_nth)
  show ?thesis
  proof (cases "\<forall>tx \<in> set ?txs. Transaction_Validate L tx = Inr ()")
    case True
    from validate_loop_all_valid [OF this, of 0]
    have "validate_loop L ?txs 0 = Inr (length (filter IsCoinbase ?txs))"
      by simp
    with True first show ?thesis
      by (cases p) (auto simp: Block_Validate_def)
  next
    case False
    from validate_loop_some_invalid [OF this, of 0]
    obtain err where "validate_loop L ?txs 0 = Inl (InvalidTransaction err)"
      by blast
    with False first show ?thesis
      by (cases p) (auto simp: Block_Validate_def)
  qed
qed

text \<open>
  Claim C1. \<open>Block.Validate\<close> reports the first check that fails, in this order: the stored
  hash against the recomputed one (hash mismatch); with a predecessor, the previous hash
  against its hash and the height against its height plus one (chain linkage); the stored
  merkle root against the recomputed one (merkle mismatch); a transaction list that is not
  empty (empty block); a first transaction that is a coinbase (missing coinbase); every
  transaction passing \<open>Transaction.Validate\<close> (transaction invalid); exactly one coinbase
  in the list (multiple coinbase). It succeeds exactly when all of them hold.
\<close>

theorem Block_Validate_checks_in_order:
  "map_sum kind_of id (Block_Validate L b p) =
     (if Hash (Header b) \<noteq> calculateHash L b then Inl HashMismatch
      else if (case p of None \<Rightarrow> False
               | Some q \<Rightarrow> \<not> (PreviousHash (Header b) = Hash (Header q)
                              \<and> Height (Header b) = Height (Header q) + 1))
        then Inl ChainLinkageError
      else if MerkleRoot (Header b) \<noteq> calculateMerkleRoot L b then Inl MerkleMismatch
      else if Transactions b = [] then Inl EmptyBlock
      else if \<not> IsCoinbase (hd (Transactions b)) then Inl MissingCoinbase
      else if \<not> (\<forall>tx \<in> set (Transactions b). Transaction_Validate L tx = Inr ())
        then Inl TransactionInvalid
      else if length (filter IsCoinbase (Transactions b)) \<noteq> 1 then Inl MultipleCoinbase
      else Inr ())
   \<and> (Block_Validate L b p = Inr () \<longleftrightarrow>
        Hash (Header b) = calculateHash L b
        \<and> (case p of None \<Rightarrow> True
            | Some q \<Rightarrow> PreviousHash (Header b) = Hash (Header q)
                        \<and> Height (Header b) = Height (Header q) + 1)
        \<and> MerkleRoot (Header b) = calculateMerkleRoot L b
        \<and> Transactions b \<noteq> []
        \<and> IsCoinbase (hd (Transactions b))
        \<and> (\<forall>tx \<in> set (Transactions b). Transaction_Validate L tx = Inr ())
        \<and> length (filter IsCoinbase (Transactions b)) = 1)"
proof -
  let ?txs = "Transactions b"
  have first: "?txs \<noteq> [] \<Longrightarrow> ?txs ! 0 = hd ?txs"
    by (simp add: hd_conv_nth)
  show ?thesis
  proof (cases "\<forall>tx \<in> set ?txs. Transaction_Validate L tx = Inr ()")
    case True
    from validate_loop_all_valid [OF this, of 0]
    have "validate_loop L ?txs 0 = Inr (length (filter IsCoinbase ?txs))"
      by simp
    with True first show ?thesis
      by (cases p) (auto simp: Block_Validate_def)
  next
    case False
    from validate_loop_some_invalid [OF this, of 0]
    obtain err where "validate_loop L ?txs 0 = Inl (InvalidTransaction err)"
      by blast
    with False first show ?thesis
      by (cases p) (auto simp: Block_Validate_def)
  qed
qed

lemma block1_valid: "Block_Validate test_lib block1 (Some genesis0) = Inr ()"
  unfolding Block_Validate_Inr_iff
  by (simp add: block1_fields genesis0_fields block1_hash block1_root coinbase1_valid coinbase1_IsCoinbase)

text \<open>
  The claim at the mined block: valid on the genesis block, a linkage error on itself as
  predecessor, and a merkle mismatch once its transactions are removed.
\<close>

theorem Block_Validate_checks_in_order_witness:
  "Block_Validate test_lib block1 (Some genesis0) = Inr ()
   \<and> map_sum kind_of id (Block_Validate test_lib block1 (Some block1)) = Inl ChainLinkageError
   \<and> map_sum kind_of id (Block_Validate test_lib (block1\<lparr>Transactions := []\<rparr>) None) = Inl MerkleMismatch"
proof -
  note facts = block1_fields genesis0_fields
  have empty: "calculateHash test_lib (block1\<lparr>Transactions := []\<rparr>) = replicate 64 CHR ''0''"
    "calculateMerkleRoot test_lib (block1\<lparr>Transactions := []\<rparr>) = []"
    by (simp_all add: block1_def eval_hash calculateMerkleRoot_def)
  show ?thesis
    using Block_Validate_checks_in_order [of test_lib block1 "Some genesis0"]
      Block_Validate_checks_in_order [of test_lib block1 "Some block1"]
      Block_Validate_checks_in_order [of test_lib "block1\<lparr>Transactions := []\<rparr>" None]
    by (simp add: facts empty block1_hash block1_root coinbase1_valid coinbase1_IsCoinbase)
qed

section \<open>Mining\<close>

lemma calculateHash_Hash_update [simp]:
  "calculateHash L (b\<lparr>Header := h\<lparr>Hash := x\<rparr>\<rparr>) = calculateHash L (b\<lparr>Header := h\<rparr>)"
  by (simp add: calculateHash_def)

lemma calculateMerkleRoot_Header_update [simp]:
  "calculateMerkleRoot L (b\<lparr>Header := h\<rparr>) = calculateMerkleRoot L b"
  by (simp add: calculateMerkleRoot_def)

lemma calculateMerkleRoot_cong:
  "Transactions b1 = Transactions b2 \<Longrightarrow> calculateMerkleRoot L b1 = calculateMerkleRoot L b2"
  by (simp add: calculateMerkleRoot_def)

lemma NewBlock_fields:
  "Transactions (NewBlock L now txs prev h) = txs"
  "PreviousHash (Header (NewBlock L now txs prev h)) = prev"
  "Height (Header (NewBlock L now txs prev h)) = h"
  "Timestamp (Header (NewBlock L now txs prev h)) = now"
  "MerkleRoot (Header (NewBlock L now txs prev h)) = calculateMerkleRoot L (NewBlock L now txs prev h)"
  by (simp_all add: NewBlock_def Let_def calculateMerkleRoot_def)

lemma getTarget_loop_replicate:
  "getTarget_loop d i target = target @ replicate (unat d - unat i) CHR ''0''"
proof (induction d i target rule: getTarget_loop.induct)
  case (1 d i target)
  show ?case
  proof (cases "i < d")
    case True
    then have "unat i < unat d"
      by (simp add: word_less_nat_alt)
    moreover from True have "unat (i + 1) = Suc (unat i)"
      by (rule unat_incr_below)
    ultimately have "replicate (unat d - unat i) CHR ''0'' = CHR ''0'' # replicate (unat d - unat (i + 1)) CHR ''0''"
      by (simp add: Suc_diff_Suc flip: replicate_Suc)
    with True 1 show ?thesis
      by (subst getTarget_loop.simps) simp
  next
    case False
    then have "unat d - unat i = 0"
      by (simp add: word_less_nat_alt)
    with False show ?thesis
      by (subst getTarget_loop.simps) simp
  qed
qed

lemma getTarget_replicate: "getTarget d = replicate (unat d) CHR ''0''"
  by (simp add: getTarget_def getTarget_loop_replicate)

lemma Mine_loop_Inr:
  assumes "Mine_loop L target b = Some r"
  shows "case r of Inl p \<Rightarrow> p = SliceOutOfRange \<and> (\<exists>b1. length (calculateHash L b1) < length target)
         | Inr b' \<Rightarrow> mined_from L target b b'"
  using assms
proof (induction rule: Mine_loop.raw_induct)
  case (1 loop L target b r)
  let ?b1 = "b\<lparr>Header := (Header b)\<lparr>Nonce := Nonce (Header b) + 1\<rparr>\<rparr>"
  let ?hash = "calculateHash L ?b1"
  show ?case
  proof (cases "length target > length ?hash")
    case True
    with 1(2) have "r = Inl SliceOutOfRange"
      by (simp add: Let_def isHashValid_def)
    with True show ?thesis
      by auto
  next
    case False
    note in_bounds = this
    show ?thesis
    proof (cases "take (length target) ?hash = target")
      case True
      with in_bounds 1(2) have "r = Inr (?b1\<lparr>Header := (Header ?b1)\<lparr>Hash := ?hash\<rparr>\<rparr>)"
        by (simp add: Let_def isHashValid_def)
      with True in_bounds show ?thesis
        by (simp add: mined_from_def)
    next
      case False
      with in_bounds 1(2) have "loop L target ?b1 = Some r"
        by (simp add: Let_def isHashValid_def)
      moreover from False in_bounds 1(3) have "Mine_loop L target ?b1 = Some r"
        by (subst (asm) Mine_loop.simps) (simp add: Let_def isHashValid_def)
      ultimately have "case r of
          Inl p \<Rightarrow> p = SliceOutOfRange \<and> (\<exists>b1. length (calculateHash L b1) < length target)
        | Inr b' \<Rightarrow> mined_from L target ?b1 b'"
        by (rule 1(1))
      then show ?thesis
        by (cases r) (auto simp: mined_from_def)
    qed
  qed
qed (fact assms)

lemma Mine_Inr:
  assumes "Mine L d b = Some (Inr b')"
  shows "mined_from L (getTarget d) (b\<lparr>Header := (Header b)\<lparr>Difficulty := d\<rparr>\<rparr>) b'"
  using Mine_loop_Inr [of L "getTarget d" "b\<lparr>Header := (Header b)\<lparr>Difficulty := d\<rparr>\<rparr>" "Inr b'"] assms
  by (simp add: Mine_def Let_def)

lemma Mine_Inl:
  assumes "Mine L d b = Some (Inl p)"
  shows "p = SliceOutOfRange \<and> (\<exists>b1. length (calculateHash L b1) < unat d)"
  using Mine_loop_Inr [of L "getTarget d" "b\<lparr>Header := (Header b)\<lparr>Difficulty := d\<rparr>\<rparr>" "Inl p"] assms
  by (simp add: Mine_def Let_def getTarget_replicate)

lemma mined_block_valid:
  assumes mined: "mined_from L target b0 b'"
    and b0: "PreviousHash (Header b0) = Hash (Header tip)"
       "Height (Header b0) = Height (Header tip) + 1"
       "MerkleRoot (Header b0) = calculateMerkleRoot L b0"
    and txs: "Transactions b0 \<noteq> []" "IsCoinbase (hd (Transactions b0))"
       "length (filter IsCoinbase (Transactions b0)) = 1"
       "\<forall>tx \<in> set (Transactions b0). Transaction_Validate L tx = Inr ()"
  shows "Block_Validate L b' (Some tip) = Inr ()"
proof -
  from mined have same: "Transactions b' = Transactions b0"
    by (simp add: mined_from_def)
  then have "calculateMerkleRoot L b' = calculateMerkleRoot L b0"
    by (rule calculateMerkleRoot_cong)
  moreover from mined have "Hash (Header b') = calculateHash L b'"
    and "PreviousHash (Header b') = PreviousHash (Header b0)"
    and "Height (Header b') = Height (Header b0)"
    and "MerkleRoot (Header b') = MerkleRoot (Header b0)"
    by (auto simp: mined_from_def)
  ultimately show ?thesis
    using b0 txs same by (simp add: Block_Validate_Inr_iff)
qed

text \<open>
  Claim C3. When \<open>Mine d\<close> returns, the stored hash of the block is the hash recomputed
  from its final header, that hash begins with \<open>d\<close> characters \<open>0\<close>, and a block that
  \<open>NewBlock\<close> assembled on the hash and the height plus one of the tip, from a transaction
  list that is not empty, starts with its only coinbase and holds valid transactions only,
  passes \<open>Block.Validate\<close> against the tip.
\<close>

theorem Mine_postcondition:
  assumes "Mine L d b = Some (Inr b')"
  shows "Hash (Header b') = calculateHash L b'
     \<and> unat d \<le> length (Hash (Header b'))
     \<and> take (unat d) (Hash (Header b')) = replicate (unat d) CHR ''0''
     \<and> (b = NewBlock L now txs (Hash (Header tip)) (Height (Header tip) + 1)
          \<and> txs \<noteq> [] \<and> IsCoinbase (hd txs) \<and> length (filter IsCoinbase txs) = 1
          \<and> (\<forall>tx \<in> set txs. Transaction_Validate L tx = Inr ())
        \<longrightarrow> Block_Validate L b' (Some tip) = Inr ())"
proof -
  let ?b0 = "b\<lparr>Header := (Header b)\<lparr>Difficulty := d\<rparr>\<rparr>"
  from assms have mined: "mined_from L (getTarget d) ?b0 b'"
    by (rule Mine_Inr)
  then have "Hash (Header b') = calculateHash L b'"
    and "unat d \<le> length (Hash (Header b'))"
    and "take (unat d) (Hash (Header b')) = replicate (unat d) CHR ''0''"
    by (auto simp: mined_from_def getTarget_replicate)
  moreover have "Block_Validate L b' (Some tip) = Inr ()"
    if b: "b = NewBlock L now txs (Hash (Header tip)) (Height (Header tip) + 1)"
      and txs: "txs \<noteq> []" "IsCoinbase (hd txs)" "length (filter IsCoinbase txs) = 1"
        "\<forall>tx \<in> set txs. Transaction_Validate L tx = Inr ()"
    using mined
  proof (rule mined_block_valid)
    show "PreviousHash (Header ?b0) = Hash (Header tip)"
      and "Height (Header ?b0) = Height (Header tip) + 1"
      by (simp_all add: b NewBlock_fields)
    show "MerkleRoot (Header ?b0) = calculateMerkleRoot L ?b0"
      by (simp add: b NewBlock_fields)
    show "Transactions ?b0 \<noteq> []" "IsCoinbase (hd (Transactions ?b0))"
      "length (filter IsCoinbase (Transactions ?b0)) = 1"
      "\<forall>tx \<in> set (Transactions ?b0). Transaction_Validate L tx = Inr ()"
      using txs by (simp_all add: b NewBlock_fields)
  qed
  ultimately show ?thesis
    by blast
qed

lemma mine_block1:
  "Mine test_lib 4 (NewBlock test_lib 8 [coinbase1] (replicate 64 CHR ''7'') 1) = Some (Inr block1)"
  apply (simp add: Mine_def NewBlock_def Let_def getTarget_replicate calculateMerkleRoot_def
      buildMerkleTree_single coinbase1_eq)
  apply (subst Mine_loop.simps)
  apply (simp add: eval_hash)
  apply (subst Mine_loop.simps)
  apply (simp add: eval_hash block1_def coinbase1_eq)
  done

text \<open>
  The claim at the block mined on the genesis block: two rounds of the loop, nonce 2.
\<close>

theorem Mine_postcondition_witness:
  "Mine test_lib 4 (NewBlock test_lib 8 [coinbase1] (Hash (Header genesis0)) (Height (Header genesis0) + 1))
     = Some (Inr block1)
   \<and> Hash (Header block1) = calculateHash test_lib block1
   \<and> take 4 (Hash (Header block1)) = ''0000''
   \<and> Block_Validate test_lib block1 (Some genesis0) = Inr ()"
proof -
  have h0: "Height (Header genesis0) + 1 = 1" "Hash (Header genesis0) = replicate 64 CHR ''7''"
    by (simp_all add: genesis0_eq)
  have mine: "Mine test_lib 4 (NewBlock test_lib 8 [coinbase1] (Hash (Header genesis0)) (Height (Header genesis0) + 1))
     = Some (Inr block1)"
    by (simp only: h0 mine_block1)
  have four: "replicate 4 CHR ''0'' = ''0000''"
    by (simp add: numeral_eq_Suc)
  have "[coinbase1] \<noteq> [] \<and> IsCoinbase (hd [coinbase1]) \<and> length (filter IsCoinbase [coinbase1]) = 1
      \<and> (\<forall>tx \<in> set [coinbase1]. Transaction_Validate test_lib tx = Inr ())"
    by (simp add: coinbase1_valid coinbase1_IsCoinbase)
  with Mine_postcondition [OF mine, of 8 "[coinbase1]" genesis0]
  have "Hash (Header block1) = calculateHash test_lib block1
      \<and> take (unat (4 :: uint32)) (Hash (Header block1)) = replicate (unat (4 :: uint32)) CHR ''0''
      \<and> Block_Validate test_lib block1 (Some genesis0) = Inr ()"
    by blast
  moreover have "unat (4 :: uint32) = 4"
    by simp
  ultimately show ?thesis
    using mine four by metis
qed

text \<open>
  Claim C10. The hash is 64 characters long, and \<open>isHashValid\<close> slices it to the length of
  the target, which is the difficulty. Up to difficulty 64 the slice is in bounds for
  every header, so in every round of the loop, and \<open>Mine\<close> never panics; above 64 the
  slice is out of range for every header, and \<open>Mine\<close> panics in its first round.
\<close>

theorem hash_prefix_slice_bounds:
  assumes len: "\<forall>s. length (sha256_hex L s) = 64"
  shows "(unat d \<le> 64 \<longrightarrow>
            (\<exists>valid. isHashValid (calculateHash L b) (getTarget d) = Inr valid)
            \<and> Mine L d b \<noteq> Some (Inl p))
     \<and> (64 < unat d \<longrightarrow>
            isHashValid (calculateHash L b) (getTarget d) = Inl SliceOutOfRange
            \<and> Mine L d b = Some (Inl SliceOutOfRange))"
proof -
  from len have hash_len: "length (calculateHash L b1) = 64" for b1
    by (simp add: calculateHash_def)
  have "Mine L d b \<noteq> Some (Inl p)" if "unat d \<le> 64"
  proof
    assume "Mine L d b = Some (Inl p)"
    then obtain b1 where "length (calculateHash L b1) < unat d"
      using Mine_Inl by blast
    with that hash_len show False
      by simp
  qed
  moreover have "Mine L d b = Some (Inl SliceOutOfRange)" if "64 < unat d"
    using that hash_len
    by (subst Mine_def, simp only: Let_def, subst Mine_loop.simps)
       (simp add: Let_def isHashValid_def getTarget_replicate)
  ultimately show ?thesis
    using hash_len by (auto simp: isHashValid_def getTarget_replicate)
qed

text \<open>
  The claim for the instance, at difficulties 64 and 65.
\<close>

theorem hash_prefix_slice_bounds_witness:
  "(\<forall>s. length (sha256_hex test_lib s) = 64)
   \<and> Mine test_lib 65 block1 = Some (Inl SliceOutOfRange)
   \<and> Mine test_lib 64 block1 \<noteq> Some (Inl SliceOutOfRange)
   \<and> isHashValid (calculateHash test_lib block1) (getTarget 65) = Inl SliceOutOfRange"
proof -
  have len: "\<forall>s. length (sha256_hex test_lib s) = 64"
    by (simp add: test_sha256_hex_length)
  from hash_prefix_slice_bounds [OF len, of 65 block1]
    hash_prefix_slice_bounds [OF len, of 64 block1 SliceOutOfRange] len
  show ?thesis
    by simp
qed

section \<open>Appending a block\<close>

lemma inputs_valid_always: "inputs_valid bc inputs"
  by (induction inputs) (simp_all add: isValidInput_def)

lemma validateTransactions_loop_Inr: "validateTransactions_loop bc txs i = Inr ()"
  by (induction txs arbitrary: i) (simp_all add: inputs_valid_always)

text \<open>
  Claim C9. The check of one input accepts every input, so \<open>validateTransactions\<close>
  accepts every block and \<open>AddBlock\<close> never returns its error: no input is refused for the
  output it names.
\<close>

theorem input_check_accepts_everything:
  "isValidInput bc input
   \<and> validateTransactions bc block = Inr ()
   \<and> AddBlock L now bc transactions \<noteq> Some (Inr (Inl (TransactionValidationFailed err), bc'))"
proof -
  have "validateTransactions bc' block' = Inr ()" for bc' block'
    by (simp add: validateTransactions_def validateTransactions_loop_Inr)
  then show ?thesis
    by (auto simp: isValidInput_def AddBlock_def Let_def split: option.splits sum.splits)
qed

lemma AddBlock_cases:
  assumes "blocks bc \<noteq> []"
  shows "AddBlock L now bc txs =
     (case Mine L (difficulty bc) (candidate L now bc txs) of
        None \<Rightarrow> None
      | Some (Inl p) \<Rightarrow> Some (Inl p)
      | Some (Inr newBlock) \<Rightarrow>
          (case Block_Validate L newBlock (Some (last (blocks bc))) of
             Inl err \<Rightarrow> Some (Inr (Inl (BlockValidationFailed err), bc))
           | Inr u \<Rightarrow>
               Some (Inr (Inr (),
                 (let bc2 = updateUTXOSet (bc\<lparr>blocks := blocks bc @ [newBlock]\<rparr>) newBlock
                  in if sint (Height (Header newBlock)) smod 10 = 0 then adjustDifficulty bc2 else bc2)))))"
proof -
  have "validateTransactions bc b = Inr ()" for b
    by (simp add: validateTransactions_def validateTransactions_loop_Inr)
  with assms show ?thesis
    by (simp add: AddBlock_def candidate_def Let_def last_conv_nth
        split: option.splits sum.splits)
qed

lemma AddBlock_error_unchanged:
  assumes "AddBlock L now bc txs = Some (Inr (Inl err, bc'))"
  shows "bc' = bc"
proof (cases "blocks bc = []")
  case True
  with assms show ?thesis
    by (simp add: AddBlock_def)
next
  case False
  from assms show ?thesis
    unfolding AddBlock_cases [OF False]
    by (auto split: option.splits sum.splits)
qed

lemma AddBlock_success:
  assumes "AddBlock L now bc txs = Some (Inr (Inr (), bc'))"
  shows "blocks bc \<noteq> []"
    and "\<exists>newBlock.
           Mine L (difficulty bc) (candidate L now bc txs) = Some (Inr newBlock)
           \<and> Block_Validate L newBlock (Some (last (blocks bc))) = Inr ()
           \<and> bc' = (let bc2 = updateUTXOSet (bc\<lparr>blocks := blocks bc @ [newBlock]\<rparr>) newBlock
                    in if sint (Height (Header newBlock)) smod 10 = 0 then adjustDifficulty bc2 else bc2)"
proof -
  show nonempty: "blocks bc \<noteq> []"
    using assms by (auto simp: AddBlock_def)
  from assms show "\<exists>newBlock.
           Mine L (difficulty bc) (candidate L now bc txs) = Some (Inr newBlock)
           \<and> Block_Validate L newBlock (Some (last (blocks bc))) = Inr ()
           \<and> bc' = (let bc2 = updateUTXOSet (bc\<lparr>blocks := blocks bc @ [newBlock]\<rparr>) newBlock
                    in if sint (Height (Header newBlock)) smod 10 = 0 then adjustDifficulty bc2 else bc2)"
    unfolding AddBlock_cases [OF nonempty]
    by (auto split: option.splits sum.splits)
qed

lemma adjustDifficulty_frame:
  "blocks (adjustDifficulty bc) = blocks bc" "utxoSet (adjustDifficulty bc) = utxoSet bc"
  by (simp_all add: adjustDifficulty_def Let_def)

lemma adjustDifficulty_appended:
  assumes "bs \<noteq> []"
  shows "difficulty (adjustDifficulty \<lparr>blocks = bs @ [nb], difficulty = d, utxoSet = u\<rparr>) =
     (let timeDiff = Timestamp (Header nb) - Timestamp (Header (last bs))
      in if timeDiff <s 30 then d + 1
         else if 60 <s timeDiff \<and> 1 < d then d - 1
         else d)"
proof -
  from assms have "length bs - Suc 0 < length bs"
    by (cases bs) simp_all
  with assms have "(bs @ [nb]) ! (length bs - Suc 0) = last bs"
    by (simp add: nth_append last_conv_nth)
  with assms show ?thesis
    by (cases bs) (simp_all add: adjustDifficulty_def Let_def)
qed

lemma bucket_of_spend_inputs:
  "bucket_of (spend_inputs u inputs) address =
     drop (length (filter (\<lambda>input. PublicKey input = address) inputs)) (bucket_of u address)"
proof (induction inputs arbitrary: u)
  case Nil
  then show ?case by simp
next
  case (Cons input rest)
  let ?k = "PublicKey input"
  show ?case
  proof (cases "u ?k")
    case None
    then have "bucket_of u address = [] \<or> ?k \<noteq> address"
      by (auto simp: bucket_of_def)
    with None Cons.IH [of u] show ?thesis
      by auto
  next
    case (Some outputs)
    show ?thesis
    proof (cases "outputs = []")
      case True
      with Some have "bucket_of u address = [] \<or> ?k \<noteq> address"
        by (auto simp: bucket_of_def)
      with Some True Cons.IH [of u] show ?thesis
        by auto
    next
      case False
      let ?u' = "if drop 1 outputs = [] then (u(?k \<mapsto> drop 1 outputs))(?k := None)
                 else u(?k \<mapsto> drop 1 outputs)"
      from Some False have step: "spend_inputs u (input # rest) = spend_inputs ?u' rest"
        by (simp add: Let_def)
      from Some have "bucket_of ?u' address =
          (if ?k = address then drop 1 (bucket_of u address) else bucket_of u address)"
        by (auto simp: bucket_of_def)
      with step Cons.IH [of ?u'] show ?thesis
        by (simp del: spend_inputs.simps)
    qed
  qed
qed

lemma bucket_of_add_outputs:
  "bucket_of (add_outputs u outputs) address =
     bucket_of u address @ filter (\<lambda>output. Address output = address) outputs"
proof (induction outputs arbitrary: u)
  case Nil
  then show ?case by simp
next
  case (Cons out rest)
  let ?u' = "u(Address out \<mapsto> (case u (Address out) of None \<Rightarrow> [] | Some bucket \<Rightarrow> bucket) @ [out])"
  let ?to = "\<lambda>output. Address output = address"
  have "bucket_of (add_outputs u (out # rest)) address = bucket_of (add_outputs ?u' rest) address"
    by simp
  also have "\<dots> = bucket_of ?u' address @ filter ?to rest"
    by (rule Cons.IH)
  also have "\<dots> = bucket_of u address @ filter ?to (out # rest)"
    by (simp add: bucket_of_def)
  finally show ?case .
qed

lemma bucket_of_update_utxo_txs:
  "bucket_of (update_utxo_txs u txs) address = foldl (bucket_after_tx address) (bucket_of u address) txs"
proof (induction txs arbitrary: u)
  case Nil
  then show ?case by simp
next
  case (Cons tx rest)
  let ?u1 = "if \<not> IsCoinbase tx then spend_inputs u (Inputs tx) else u"
  have "bucket_of (add_outputs ?u1 (Outputs tx)) address = bucket_after_tx address (bucket_of u address) tx"
    by (simp add: bucket_of_add_outputs bucket_of_spend_inputs bucket_after_tx_def)
  with Cons.IH [of "add_outputs ?u1 (Outputs tx)"] show ?case
    by (simp add: Let_def)
qed

lemma spend_inputs_no_empty:
  "u address \<noteq> Some [] \<Longrightarrow> spend_inputs u inputs address \<noteq> Some []"
proof (induction inputs arbitrary: u)
  case Nil
  then show ?case by simp
next
  case (Cons input rest)
  show ?case
  proof (cases "u (PublicKey input)")
    case None
    with Cons show ?thesis by simp
  next
    case (Some outputs)
    with Cons.prems show ?thesis
      by (auto simp: Let_def intro!: Cons.IH split: if_splits)
  qed
qed

lemma add_outputs_no_empty:
  "u address \<noteq> Some [] \<Longrightarrow> add_outputs u outputs address \<noteq> Some []"
  by (induction outputs arbitrary: u) auto

lemma update_utxo_txs_no_empty:
  "u address \<noteq> Some [] \<Longrightarrow> update_utxo_txs u txs address \<noteq> Some []"
proof (induction txs arbitrary: u)
  case Nil
  then show ?case by simp
next
  case (Cons tx rest)
  then show ?case
    by (auto simp: Let_def intro!: Cons.IH add_outputs_no_empty spend_inputs_no_empty)
qed

lemma no_empty_bucket:
  "u address \<noteq> Some [] \<Longrightarrow>
   u address = (if bucket_of u address = [] then None else Some (bucket_of u address))"
  by (cases "u address") (simp_all add: bucket_of_def)

lemma FindUTXO_bucket_of: "FindUTXO bc address = bucket_of (utxoSet bc) address"
  by (simp add: FindUTXO_def bucket_of_def)

lemma AddBlock_success_state:
  assumes ok: "AddBlock L now bc transactions = Some (Inr (Inr (), bc'))"
  shows "\<exists>newBlock.
      Mine L (difficulty bc) (candidate L now bc transactions) = Some (Inr newBlock)
      \<and> Transactions newBlock = transactions
      \<and> Height (Header newBlock) = Height (Header (last (blocks bc))) + 1
      \<and> blocks bc' = blocks bc @ [newBlock]
      \<and> utxoSet bc' = update_utxo_txs (utxoSet bc) transactions
      \<and> difficulty bc' =
          (if sint (Height (Header newBlock)) smod 10 = 0
           then difficulty (adjustDifficulty (bc\<lparr>blocks := blocks bc @ [newBlock]\<rparr>))
           else difficulty bc)
      \<and> difficulty bc' =
          (if sint (Height (Header newBlock)) smod 10 \<noteq> 0 then difficulty bc
           else if (now - Timestamp (Header (last (blocks bc)))) <s 30 then difficulty bc + 1
           else if 60 <s (now - Timestamp (Header (last (blocks bc)))) \<and> 1 < difficulty bc
             then difficulty bc - 1
           else difficulty bc)"
proof -
  from AddBlock_success [OF ok]
  obtain newBlock where nonempty: "blocks bc \<noteq> []"
    and mine: "Mine L (difficulty bc) (candidate L now bc transactions) = Some (Inr newBlock)"
    and bc': "bc' = (let bc2 = updateUTXOSet (bc\<lparr>blocks := blocks bc @ [newBlock]\<rparr>) newBlock
                    in if sint (Height (Header newBlock)) smod 10 = 0 then adjustDifficulty bc2 else bc2)"
    by blast
  let ?d = "difficulty bc"
  let ?prev = "last (blocks bc)"
  from Mine_Inr [OF mine] have txs: "Transactions newBlock = transactions"
    and ts: "Timestamp (Header newBlock) = now"
    and height: "Height (Header newBlock) = Height (Header ?prev) + 1"
    by (simp_all add: mined_from_def candidate_def NewBlock_fields)
  from bc' txs have blocks': "blocks bc' = blocks bc @ [newBlock]"
    and utxo': "utxoSet bc' = update_utxo_txs (utxoSet bc) transactions"
    and diff': "difficulty bc' =
          (if sint (Height (Header newBlock)) smod 10 = 0
           then difficulty (adjustDifficulty (bc\<lparr>blocks := blocks bc @ [newBlock]\<rparr>))
           else ?d)"
    by (simp_all add: Let_def updateUTXOSet_def adjustDifficulty_frame adjustDifficulty_def)
  have "difficulty (adjustDifficulty (bc\<lparr>blocks := blocks bc @ [newBlock]\<rparr>)) =
     (let timeDiff = Timestamp (Header newBlock) - Timestamp (Header ?prev)
      in if timeDiff <s 30 then ?d + 1
         else if 60 <s timeDiff \<and> 1 < ?d then ?d - 1
         else ?d)"
    using adjustDifficulty_appended [OF nonempty, of newBlock ?d "utxoSet bc"]
    by (cases bc) simp
  with diff' ts have "difficulty bc' =
          (if sint (Height (Header newBlock)) smod 10 \<noteq> 0 then ?d
           else if (now - Timestamp (Header ?prev)) <s 30 then ?d + 1
           else if 60 <s (now - Timestamp (Header ?prev)) \<and> 1 < ?d then ?d - 1
           else ?d)"
    by (simp add: Let_def)
  with mine txs height blocks' utxo' diff' show ?thesis
    by blast
qed

text \<open>
  Claim C2. When \<open>AddBlock\<close> returns an error, the chain is as before the call: blocks,
  difficulty and index. When it returns nil, the mined block, which holds the given
  transactions, is appended; the index is updated with them: for every address the bucket
  is the old one after each transaction in turn has removed one entry per input of that
  spender and appended its outputs to that address, and a bucket left empty is removed;
  and the difficulty changes only when the height of the new block is a multiple of 10,
  then by the rule on the time since the block before.
\<close>

theorem AddBlock_all_or_nothing:
  "(AddBlock L now bc transactions = Some (Inr (Inl err, bc')) \<longrightarrow> bc' = bc)
   \<and> (AddBlock L now bc transactions = Some (Inr (Inr (), bc')) \<longrightarrow>
        (\<exists>newBlock.
           Mine L (difficulty bc)
             (NewBlock L now transactions (Hash (Header (last (blocks bc))))
                (Height (Header (last (blocks bc))) + 1)) = Some (Inr newBlock)
           \<and> Transactions newBlock = transactions
           \<and> Height (Header newBlock) = Height (Header (last (blocks bc))) + 1
           \<and> blocks bc' = blocks bc @ [newBlock]
           \<and> utxoSet bc' = update_utxo_txs (utxoSet bc) transactions
           \<and> FindUTXO bc' address =
               foldl (bucket_after_tx address) (FindUTXO bc address) transactions
           \<and> (utxoSet bc address \<noteq> Some [] \<longrightarrow>
                utxoSet bc' address =
                  (if FindUTXO bc' address = [] then None else Some (FindUTXO bc' address)))
           \<and> difficulty bc' =
               (if sint (Height (Header newBlock)) smod 10 = 0
                then difficulty (adjustDifficulty (bc\<lparr>blocks := blocks bc @ [newBlock]\<rparr>))
                else difficulty bc)
           \<and> difficulty bc' =
               (if sint (Height (Header newBlock)) smod 10 \<noteq> 0 then difficulty bc
                else if (now - Timestamp (Header (last (blocks bc)))) <s 30 then difficulty bc + 1
                else if 60 <s (now - Timestamp (Header (last (blocks bc)))) \<and> 1 < difficulty bc
                  then difficulty bc - 1
                else difficulty bc)))"
proof (intro conjI impI)
  assume "AddBlock L now bc transactions = Some (Inr (Inl err, bc'))"
  then show "bc' = bc"
    by (rule AddBlock_error_unchanged)
next
  assume ok: "AddBlock L now bc transactions = Some (Inr (Inr (), bc'))"
  from AddBlock_success_state [OF ok]
  obtain newBlock where state:
      "Mine L (difficulty bc) (candidate L now bc transactions) = Some (Inr newBlock)"
      "Transactions newBlock = transactions"
      "Height (Header newBlock) = Height (Header (last (blocks bc))) + 1"
      "blocks bc' = blocks bc @ [newBlock]"
      "difficulty bc' =
          (if sint (Height (Header newBlock)) smod 10 = 0
           then difficulty (adjustDifficulty (bc\<lparr>blocks := blocks bc @ [newBlock]\<rparr>))
           else difficulty bc)"
      "difficulty bc' =
          (if sint (Height (Header newBlock)) smod 10 \<noteq> 0 then difficulty bc
           else if (now - Timestamp (Header (last (blocks bc)))) <s 30 then difficulty bc + 1
           else if 60 <s (now - Timestamp (Header (last (blocks bc)))) \<and> 1 < difficulty bc
             then difficulty bc - 1
           else difficulty bc)"
    and utxo': "utxoSet bc' = update_utxo_txs (utxoSet bc) transactions"
    by blast
  from utxo' have view: "FindUTXO bc' address =
      foldl (bucket_after_tx address) (FindUTXO bc address) transactions"
    by (simp add: FindUTXO_bucket_of bucket_of_update_utxo_txs)
  have keys: "utxoSet bc' address =
      (if FindUTXO bc' address = [] then None else Some (FindUTXO bc' address))"
    if "utxoSet bc address \<noteq> Some []"
  proof -
    from that utxo' have "utxoSet bc' address \<noteq> Some []"
      by (simp add: update_utxo_txs_no_empty)
    then show ?thesis
      using no_empty_bucket [of "utxoSet bc'" address] by (simp add: FindUTXO_bucket_of)
  qed
  from state utxo' view keys
  show "\<exists>newBlock.
           Mine L (difficulty bc)
             (NewBlock L now transactions (Hash (Header (last (blocks bc))))
                (Height (Header (last (blocks bc))) + 1)) = Some (Inr newBlock)
           \<and> Transactions newBlock = transactions
           \<and> Height (Header newBlock) = Height (Header (last (blocks bc))) + 1
           \<and> blocks bc' = blocks bc @ [newBlock]
           \<and> utxoSet bc' = update_utxo_txs (utxoSet bc) transactions
           \<and> FindUTXO bc' address =
               foldl (bucket_after_tx address) (FindUTXO bc address) transactions
           \<and> (utxoSet bc address \<noteq> Some [] \<longrightarrow>
                utxoSet bc' address =
                  (if FindUTXO bc' address = [] then None else Some (FindUTXO bc' address)))
           \<and> difficulty bc' =
               (if sint (Height (Header newBlock)) smod 10 = 0
                then difficulty (adjustDifficulty (bc\<lparr>blocks := blocks bc @ [newBlock]\<rparr>))
                else difficulty bc)
           \<and> difficulty bc' =
               (if sint (Height (Header newBlock)) smod 10 \<noteq> 0 then difficulty bc
                else if (now - Timestamp (Header (last (blocks bc)))) <s 30 then difficulty bc + 1
                else if 60 <s (now - Timestamp (Header (last (blocks bc)))) \<and> 1 < difficulty bc
                  then difficulty bc - 1
                else difficulty bc)"
    unfolding candidate_def by blast
qed

lemma chain0_fields: "blocks chain0 = [genesis0]" "difficulty chain0 = 4"
  by (simp_all add: chain0_def NewBlockchain_def Let_def updateUTXOSet_def genesis0_def)

lemma mine_empty:
  "Mine test_lib 4 (NewBlock test_lib 8 [] (replicate 64 CHR ''7'') 1) = Some (Inr block1_empty)"
  apply (simp add: Mine_def NewBlock_def Let_def getTarget_replicate calculateMerkleRoot_def)
  apply (subst Mine_loop.simps)
  apply (simp add: eval_hash)
  apply (subst Mine_loop.simps)
  apply (simp add: eval_hash block1_empty_def)
  done

lemma block1_empty_invalid:
  "Block_Validate test_lib block1_empty (Some genesis0) = Inl NoTransactions"
  by (simp add: Block_Validate_def block1_empty_def genesis0_fields eval_hash calculateMerkleRoot_def)

lemma AddBlock_chain0_empty:
  "AddBlock test_lib 8 chain0 [] = Some (Inr (Inl (BlockValidationFailed NoTransactions), chain0))"
proof -
  have "blocks chain0 \<noteq> []"
    by (simp add: chain0_fields)
  then show ?thesis
    by (simp add: AddBlock_cases candidate_def chain0_fields genesis0_fields mine_empty
        block1_empty_invalid)
qed

lemma AddBlock_chain0_coinbase1:
  "AddBlock test_lib 8 chain0 [coinbase1] =
     Some (Inr (Inr (), updateUTXOSet (chain0\<lparr>blocks := blocks chain0 @ [block1]\<rparr>) block1))"
proof -
  have "blocks chain0 \<noteq> []"
    by (simp add: chain0_fields)
  then show ?thesis
    by (simp add: AddBlock_cases candidate_def chain0_fields genesis0_fields mine_block1
        block1_valid block1_fields signed_modulo_int_def Let_def)
qed

lemma spend1_eq:
  "spend1 = \<lparr>ID = replicate 64 CHR ''0'',
      Inputs = [\<lparr>TxID = ''nowhere'', OutputIndex = 3, PublicKey = ''genesis'', InSignature = []\<rparr>],
      Outputs = [\<lparr>Value = 20, Address = ''bob''\<rparr>], TxTimestamp = 5, Signature = []\<rparr>"
  by (simp add: spend1_def NewTransaction_def calculateID_def Let_def test_lib_simps)

lemma spend1_valid: "Transaction_Validate test_lib spend1 = Inr ()"
  by (simp add: spend1_eq Transaction_Validate_def IsCoinbase_def calculateID_def test_lib_simps
      word_sle_eq)

lemma merkle_two:
  "buildMerkleTree test_lib [replicate 64 CHR ''5'', replicate 64 CHR ''0''] = replicate 64 CHR ''0''"
  by (simp add: buildMerkleTree_compute_root test_lib_simps)

lemma mine_block1_spend:
  "Mine test_lib 4 (NewBlock test_lib 8 [coinbase1, spend1] (replicate 64 CHR ''7'') 1) =
     Some (Inr block1_spend)"
  apply (simp add: Mine_def NewBlock_def Let_def getTarget_replicate calculateMerkleRoot_def
      merkle_two coinbase1_eq spend1_eq)
  apply (subst Mine_loop.simps)
  apply (simp add: eval_hash)
  apply (subst Mine_loop.simps)
  apply (simp add: eval_hash block1_spend_def coinbase1_eq spend1_eq)
  done

lemma block1_spend_valid: "Block_Validate test_lib block1_spend (Some genesis0) = Inr ()"
proof -
  have "calculateHash test_lib block1_spend = replicate 64 CHR ''0''"
    by (simp add: block1_spend_def eval_hash)
  moreover have "calculateMerkleRoot test_lib block1_spend = replicate 64 CHR ''0''"
    by (simp add: block1_spend_def calculateMerkleRoot_def merkle_two coinbase1_eq spend1_eq)
  moreover have "\<not> IsCoinbase spend1"
    by (simp add: spend1_eq IsCoinbase_def)
  ultimately show ?thesis
    unfolding Block_Validate_Inr_iff
    by (simp add: block1_spend_def genesis0_fields coinbase1_valid coinbase1_IsCoinbase spend1_valid)
qed

lemma AddBlock_chain0_spend:
  "AddBlock test_lib 8 chain0 [coinbase1, spend1] =
     Some (Inr (Inr (), updateUTXOSet (chain0\<lparr>blocks := blocks chain0 @ [block1_spend]\<rparr>) block1_spend))"
proof -
  have "blocks chain0 \<noteq> []"
    by (simp add: chain0_fields)
  moreover have "Height (Header block1_spend) = 1"
    by (simp add: block1_spend_def)
  ultimately show ?thesis
    by (simp add: AddBlock_cases candidate_def chain0_fields genesis0_fields mine_block1_spend
        block1_spend_valid signed_modulo_int_def Let_def)
qed

lemma chain0_index:
  "utxoSet chain0 = [''genesis'' \<mapsto> [\<lparr>Value = 5000000000, Address = ''genesis''\<rparr>]]"
  by (simp add: chain0_def NewBlockchain_def Let_def updateUTXOSet_def genesis0_def [symmetric]
      genesis0_eq IsCoinbase_def)

lemma chain0_buckets:
  "FindUTXO chain0 ''genesis'' = [\<lparr>Value = 5000000000, Address = ''genesis''\<rparr>]"
  "FindUTXO chain0 ''miner'' = []"
  "FindUTXO chain0 ''bob'' = []"
  "utxoSet chain0 ''genesis'' \<noteq> Some []"
  by (simp_all add: FindUTXO_def chain0_index)

text \<open>
  The claim on the chain of the genesis block. No transaction: the error of the empty
  block and the same chain. One coinbase transaction: the chain of two blocks, the reward
  in the bucket of the miner. The coinbase and the spending transaction: the one entry of
  the genesis address is removed and its key with it, and the receiver holds the output.
\<close>

theorem AddBlock_all_or_nothing_witness:
  "AddBlock test_lib 8 chain0 [] = Some (Inr (Inl (BlockValidationFailed NoTransactions), chain0))
   \<and> FindUTXO chain0 ''genesis'' = [\<lparr>Value = 5000000000, Address = ''genesis''\<rparr>]
   \<and> FindUTXO chain0 ''miner'' = []
   \<and> FindUTXO chain0 ''bob'' = []
   \<and> (\<exists>bc'. AddBlock test_lib 8 chain0 [coinbase1] = Some (Inr (Inr (), bc'))
         \<and> blocks bc' = [genesis0, block1]
         \<and> utxoSet bc' = update_utxo_txs (utxoSet chain0) [coinbase1]
         \<and> FindUTXO bc' ''miner'' = [\<lparr>Value = 50, Address = ''miner''\<rparr>]
         \<and> FindUTXO bc' ''genesis'' = [\<lparr>Value = 5000000000, Address = ''genesis''\<rparr>]
         \<and> difficulty bc' = 4)
   \<and> (\<exists>bc'. AddBlock test_lib 8 chain0 [coinbase1, spend1] = Some (Inr (Inr (), bc'))
         \<and> blocks bc' = [genesis0, block1_spend]
         \<and> FindUTXO bc' ''miner'' = [\<lparr>Value = 50, Address = ''miner''\<rparr>]
         \<and> FindUTXO bc' ''bob'' = [\<lparr>Value = 20, Address = ''bob''\<rparr>]
         \<and> FindUTXO bc' ''genesis'' = []
         \<and> utxoSet bc' ''genesis'' = None
         \<and> difficulty bc' = 4)"
proof -
  let ?a = "updateUTXOSet (chain0\<lparr>blocks := blocks chain0 @ [block1]\<rparr>) block1"
  let ?b = "updateUTXOSet (chain0\<lparr>blocks := blocks chain0 @ [block1_spend]\<rparr>) block1_spend"
  note run_a = AddBlock_chain0_coinbase1 and run_b = AddBlock_chain0_spend
  note txs = bucket_after_tx_def coinbase1_eq spend1_eq IsCoinbase_def chain0_buckets
  have mined: "Mine test_lib (difficulty chain0)
       (NewBlock test_lib 8 txs (Hash (Header (last (blocks chain0))))
          (Height (Header (last (blocks chain0))) + 1)) =
     Mine test_lib 4 (NewBlock test_lib 8 txs (replicate 64 CHR ''7'') 1)" for txs
    by (simp add: chain0_fields genesis0_fields)
  have height: "sint (Height (Header (last (blocks chain0))) + 1) smod 10 \<noteq> 0"
    by (simp add: chain0_fields genesis0_fields signed_modulo_int_def)
  from AddBlock_all_or_nothing [where L = test_lib and now = 8 and bc = chain0
      and transactions = "[coinbase1]" and bc' = ?a] run_a
  have a: "\<exists>newBlock.
       Mine test_lib 4 (NewBlock test_lib 8 [coinbase1] (replicate 64 CHR ''7'') 1) = Some (Inr newBlock)
       \<and> blocks ?a = blocks chain0 @ [newBlock]
       \<and> utxoSet ?a = update_utxo_txs (utxoSet chain0) [coinbase1]
       \<and> FindUTXO ?a address = foldl (bucket_after_tx address) (FindUTXO chain0 address) [coinbase1]
       \<and> difficulty ?a = difficulty chain0" for address
    unfolding mined using height by metis
  from AddBlock_all_or_nothing [where L = test_lib and now = 8 and bc = chain0
      and transactions = "[coinbase1, spend1]" and bc' = ?b] run_b
  have b: "\<exists>newBlock.
       Mine test_lib 4 (NewBlock test_lib 8 [coinbase1, spend1] (replicate 64 CHR ''7'') 1) = Some (Inr newBlock)
       \<and> blocks ?b = blocks chain0 @ [newBlock]
       \<and> FindUTXO ?b address = foldl (bucket_after_tx address) (FindUTXO chain0 address) [coinbase1, spend1]
       \<and> (utxoSet chain0 address \<noteq> Some [] \<longrightarrow>
            utxoSet ?b address = (if FindUTXO ?b address = [] then None else Some (FindUTXO ?b address)))
       \<and> difficulty ?b = difficulty chain0" for address
    unfolding mined using height by metis
  from a [of "''miner''"] have a1: "blocks ?a = [genesis0, block1]"
    and a2: "utxoSet ?a = update_utxo_txs (utxoSet chain0) [coinbase1]"
    and a4: "difficulty ?a = 4"
    by (auto simp: mine_block1 chain0_fields)
  from a [of "''miner''"] have a3: "FindUTXO ?a ''miner'' = [\<lparr>Value = 50, Address = ''miner''\<rparr>]"
    by (auto simp: txs)
  from a [of "''genesis''"]
  have a5: "FindUTXO ?a ''genesis'' = [\<lparr>Value = 5000000000, Address = ''genesis''\<rparr>]"
    by (auto simp: txs)
  from b [of "''miner''"] have b1: "blocks ?b = [genesis0, block1_spend]"
    and b3: "difficulty ?b = 4"
    by (auto simp: mine_block1_spend chain0_fields)
  from b [of "''miner''"] have b2: "FindUTXO ?b ''miner'' = [\<lparr>Value = 50, Address = ''miner''\<rparr>]"
    by (auto simp: txs)
  from b [of "''bob''"] have b4: "FindUTXO ?b ''bob'' = [\<lparr>Value = 20, Address = ''bob''\<rparr>]"
    by (auto simp: txs)
  from b [of "''genesis''"] have b5: "FindUTXO ?b ''genesis'' = []"
    by (auto simp: txs)
  with b [of "''genesis''"] chain0_buckets(4) have b6: "utxoSet ?b ''genesis'' = None"
    by auto
  from AddBlock_all_or_nothing [where L = test_lib and now = 8 and bc = chain0
      and transactions = "[]" and err = "BlockValidationFailed NoTransactions" and bc' = chain0]
    AddBlock_chain0_empty run_a run_b a1 a2 a3 a4 a5 b1 b2 b3 b4 b5 b6 chain0_buckets(1-3)
  show ?thesis
    by blast
qed

text \<open>
  Claim C4. After a successful \<open>AddBlock\<close> the difficulty is the old one unless the height
  of the new block is a multiple of 10. Then only \<open>delta\<close> counts, the timestamp of the
  new block minus that of the block before it (an \<open>int64\<close> difference): under 30 the
  difficulty goes up by one, over 60 with a difficulty above 1 it goes down by one, and
  it stays in every other case. The difficulty is a \<open>uint32\<close>: mining succeeded at it, so it
  is at most the length of a hash, and with hashes of 64 characters the sum does not wrap.
\<close>

theorem difficulty_adjustment_rule:
  assumes ok: "AddBlock L now bc transactions = Some (Inr (Inr (), bc'))"
  shows "blocks bc \<noteq> [] \<and> blocks bc' = blocks bc @ [last (blocks bc')]
     \<and> (let newBlock = last (blocks bc');
             prevBlock = last (blocks bc);
             delta = Timestamp (Header newBlock) - Timestamp (Header prevBlock);
             d = difficulty bc
         in Timestamp (Header newBlock) = now
            \<and> Height (Header newBlock) = Height (Header prevBlock) + 1
            \<and> difficulty bc' =
                 (if sint (Height (Header newBlock)) smod 10 \<noteq> 0 then d
                  else if delta <s 30 then d + 1
                  else if 60 <s delta \<and> 1 < d then d - 1
                  else d)
            \<and> unat d \<le> length (Hash (Header newBlock))
            \<and> ((\<forall>s. length (sha256_hex L s) = 64) \<longrightarrow> unat (d + 1) = unat d + 1)
            \<and> (1 < d \<longrightarrow> unat (d - 1) = unat d - 1))"
proof -
  from AddBlock_success [OF ok]
  obtain newBlock where nonempty: "blocks bc \<noteq> []"
    and mine: "Mine L (difficulty bc) (candidate L now bc transactions) = Some (Inr newBlock)"
    and bc': "bc' = (let bc2 = updateUTXOSet (bc\<lparr>blocks := blocks bc @ [newBlock]\<rparr>) newBlock
                    in if sint (Height (Header newBlock)) smod 10 = 0 then adjustDifficulty bc2 else bc2)"
    by blast
  let ?d = "difficulty bc"
  let ?prev = "last (blocks bc)"
  from Mine_Inr [OF mine] have mined:
    "mined_from L (getTarget ?d)
       ((candidate L now bc transactions)\<lparr>Header := (Header (candidate L now bc transactions))\<lparr>Difficulty := ?d\<rparr>\<rparr>)
       newBlock" .
  then have ts: "Timestamp (Header newBlock) = now"
    and height: "Height (Header newBlock) = Height (Header ?prev) + 1"
    by (simp_all add: mined_from_def candidate_def NewBlock_fields)
  from mined have bound: "unat ?d \<le> length (Hash (Header newBlock))"
    by (auto simp: mined_from_def getTarget_replicate)
  from bc' have blocks': "blocks bc' = blocks bc @ [newBlock]"
    by (simp add: Let_def updateUTXOSet_def adjustDifficulty_frame)
  have adj: "difficulty (adjustDifficulty (updateUTXOSet (bc\<lparr>blocks := blocks bc @ [newBlock]\<rparr>) newBlock)) =
     (let timeDiff = Timestamp (Header newBlock) - Timestamp (Header ?prev)
      in if timeDiff <s 30 then ?d + 1
         else if 60 <s timeDiff \<and> 1 < ?d then ?d - 1
         else ?d)"
    using adjustDifficulty_appended [OF nonempty, of newBlock ?d "update_utxo_txs (utxoSet bc) (Transactions newBlock)"]
    by (cases bc) (simp add: updateUTXOSet_def)
  from bc' have diff: "difficulty bc' =
      (if sint (Height (Header newBlock)) smod 10 \<noteq> 0 then ?d
       else if (Timestamp (Header newBlock) - Timestamp (Header ?prev)) <s 30 then ?d + 1
       else if 60 <s (Timestamp (Header newBlock) - Timestamp (Header ?prev)) \<and> 1 < ?d then ?d - 1
       else ?d)"
    by (simp add: Let_def adj) (simp add: updateUTXOSet_def)
  have up: "unat (?d + 1) = unat ?d + 1" if len: "\<forall>s. length (sha256_hex L s) = 64"
  proof -
    from mined have "Hash (Header newBlock) = calculateHash L newBlock"
      by (simp add: mined_from_def)
    with len have "length (Hash (Header newBlock)) = 64"
      by (simp add: calculateHash_def)
    with bound have "unat ?d + unat (1 :: uint32) < 2 ^ LENGTH(32)"
      by simp
    then have "unat (?d + 1) = unat ?d + unat (1 :: uint32)"
      by (rule unat_add_lem [THEN iffD1])
    then show ?thesis
      by simp
  qed
  have down: "unat (?d - 1) = unat ?d - 1" if "1 < ?d"
    using that by (simp add: unat_minus_one word_less_nat_alt unat_gt_0 [symmetric])
  from nonempty blocks' ts height diff bound up down show ?thesis
    by (simp add: Let_def)
qed

lemma block10_fields:
  "Hash (Header block10) = replicate 64 CHR ''0''"
  "Height (Header block10) = 10"
  "Timestamp (Header block10) = 128"
  "Transactions block10 = [coinbase1]"
  by (simp_all add: block10_def)

lemma block10_valid: "Block_Validate test_lib block10 (Some tip9) = Inr ()"
proof -
  have "calculateHash test_lib block10 = replicate 64 CHR ''0''"
    by (simp add: block10_def eval_hash)
  moreover have "calculateMerkleRoot test_lib block10 = replicate 64 CHR ''5''"
    by (simp add: block10_def calculateMerkleRoot_def buildMerkleTree_single coinbase1_eq)
  ultimately show ?thesis
    unfolding Block_Validate_Inr_iff
    by (simp add: block10_def tip9_def coinbase1_valid coinbase1_IsCoinbase)
qed

lemma mine_block10:
  "Mine test_lib 1 (NewBlock test_lib 128 [coinbase1] (replicate 64 CHR ''a'') 10) = Some (Inr block10)"
  apply (simp add: Mine_def NewBlock_def Let_def getTarget_replicate calculateMerkleRoot_def
      buildMerkleTree_single coinbase1_eq)
  apply (subst Mine_loop.simps)
  apply (simp add: eval_hash)
  apply (subst Mine_loop.simps)
  apply (simp add: eval_hash block10_def coinbase1_eq)
  done

lemma AddBlock_chain9:
  "AddBlock test_lib 128 chain9 [coinbase1] =
     Some (Inr (Inr (), adjustDifficulty (updateUTXOSet (chain9\<lparr>blocks := blocks chain9 @ [block10]\<rparr>) block10)))"
proof -
  have tip: "blocks chain9 \<noteq> []" "last (blocks chain9) = tip9" "difficulty chain9 = 1"
    "Hash (Header tip9) = replicate 64 CHR ''a''" "Height (Header tip9) + 1 = 10"
    by (simp_all add: chain9_def tip9_def)
  show ?thesis
    by (simp add: AddBlock_cases [OF tip(1)] candidate_def tip(2-) mine_block10
        block10_valid block10_fields signed_modulo_int_def Let_def)
qed

text \<open>
  The claim on the chain at height 9: the block of height 10 comes 28 time units after
  its predecessor, and the difficulty goes from 1 to 2.
\<close>

theorem difficulty_adjustment_rule_witness:
  "(\<forall>s. length (sha256_hex test_lib s) = 64)
   \<and> (\<exists>bc'. AddBlock test_lib 128 chain9 [coinbase1] = Some (Inr (Inr (), bc'))
         \<and> Height (Header (last (blocks bc'))) = 10
         \<and> Timestamp (Header (last (blocks bc'))) - Timestamp (Header (last (blocks chain9))) = 28
         \<and> difficulty chain9 = 1
         \<and> difficulty bc' = 2)"
proof -
  let ?bc' = "adjustDifficulty (updateUTXOSet (chain9\<lparr>blocks := blocks chain9 @ [block10]\<rparr>) block10)"
  have blocks': "blocks ?bc' = [tip9, block10]"
    by (simp add: adjustDifficulty_frame updateUTXOSet_def chain9_def)
  have tip: "last (blocks chain9) = tip9" "difficulty chain9 = 1" "Timestamp (Header tip9) = 100"
    by (simp_all add: chain9_def tip9_def)
  from difficulty_adjustment_rule [OF AddBlock_chain9]
  have "difficulty ?bc' = 2"
    by (simp add: Let_def blocks' tip block10_fields signed_modulo_int_def)
  with AddBlock_chain9 blocks' tip block10_fields test_sha256_hex_length show ?thesis
    by simp
qed

section \<open>Creating a transaction\<close>









section \<open>Validating the chain\<close>

lemma ValidateChain_loop_Inr:
  "ValidateChain_loop L bs k = Inr () \<longleftrightarrow>
     (\<forall>j. k \<le> j \<and> j < length bs \<longrightarrow> Block_Validate L (bs ! j) (Some (bs ! (j - 1))) = Inr ())"
proof (induction L bs k rule: ValidateChain_loop.induct)
  case (1 L bs i)
  show ?case
  proof (cases "i < length bs")
    case False
    then show ?thesis
      by (subst ValidateChain_loop.simps) auto
  next
    case True
    show ?thesis
    proof (cases "Block_Validate L (bs ! i) (Some (bs ! (i - 1)))")
      case (Inl err)
      with True show ?thesis
        by (subst ValidateChain_loop.simps) (auto simp: Let_def)
    next
      case (Inr u)
      with True 1 have "ValidateChain_loop L bs (i + 1) = Inr () \<longleftrightarrow>
          (\<forall>j. i + 1 \<le> j \<and> j < length bs \<longrightarrow> Block_Validate L (bs ! j) (Some (bs ! (j - 1))) = Inr ())"
        by simp
      moreover have "(\<forall>j. i \<le> j \<and> j < length bs \<longrightarrow> Block_Validate L (bs ! j) (Some (bs ! (j - 1))) = Inr ())
          \<longleftrightarrow> (\<forall>j. i + 1 \<le> j \<and> j < length bs \<longrightarrow> Block_Validate L (bs ! j) (Some (bs ! (j - 1))) = Inr ())"
        using Inr by (metis Suc_eq_plus1 Suc_leI le_neq_implies_less le_add1 le_trans old.unit.exhaust)
      ultimately show ?thesis
        using True Inr by (subst ValidateChain_loop.simps) (simp add: Let_def)
    qed
  qed
qed

lemma ValidateChain_loop_first_failure:
  assumes "k \<le> i" "i < length bs"
    and "\<forall>j. k \<le> j \<and> j < i \<longrightarrow> Block_Validate L (bs ! j) (Some (bs ! (j - 1))) = Inr ()"
    and "Block_Validate L (bs ! i) (Some (bs ! (i - 1))) = Inl err"
  shows "ValidateChain_loop L bs k = Inl (i, err)"
  using assms
proof (induction L bs k rule: ValidateChain_loop.induct)
  case (1 L bs k)
  show ?case
  proof (cases "k = i")
    case True
    with 1 show ?thesis
      by (subst ValidateChain_loop.simps) (simp add: Let_def)
  next
    case False
    with 1(2) have less: "k < i"
      by simp
    with 1(4) have here: "Block_Validate L (bs ! k) (Some (bs ! (k - 1))) = Inr ()"
      by (elim allE [of _ k]) simp
    from less 1(3) have in_range: "k < length bs"
      by simp
    have "ValidateChain_loop L bs (k + 1) = Inl (i, err)"
    proof (rule 1(1) [OF in_range refl refl here])
      show "k + 1 \<le> i"
        using less by simp
      show "i < length bs"
        by (rule 1(3))
      show "\<forall>j. k + 1 \<le> j \<and> j < i \<longrightarrow> Block_Validate L (bs ! j) (Some (bs ! (j - 1))) = Inr ()"
        using 1(4) by simp
      show "Block_Validate L (bs ! i) (Some (bs ! (i - 1))) = Inl err"
        by (rule 1(5))
    qed
    with in_range here show ?thesis
      by (subst ValidateChain_loop.simps) (simp add: Let_def)
  qed
qed

lemma tampered_chain_fails_at:
  assumes valid: "ValidateChain L bc = Inr ()"
    and i: "0 < i" "i < length (blocks bc)"
    and bad: "Block_Validate L b' (Some (blocks bc ! (i - 1))) \<noteq> Inr ()"
  shows "\<exists>err. ValidateChain L (bc\<lparr>blocks := (blocks bc)[i := b']\<rparr>) = Inl (i, err)"
proof -
  let ?bs = "blocks bc"
  let ?bs' = "?bs[i := b']"
  from bad obtain err where err: "Block_Validate L b' (Some (?bs ! (i - 1))) = Inl err"
    by (cases "Block_Validate L b' (Some (?bs ! (i - 1)))") auto
  from valid have all: "\<forall>j. 1 \<le> j \<and> j < length ?bs \<longrightarrow> Block_Validate L (?bs ! j) (Some (?bs ! (j - 1))) = Inr ()"
    by (simp add: ValidateChain_def ValidateChain_loop_Inr)
  have "ValidateChain_loop L ?bs' 1 = Inl (i, err)"
  proof (rule ValidateChain_loop_first_failure)
    show "1 \<le> i"
      using i by simp
    show "i < length ?bs'"
      using i by simp
    show "\<forall>j. 1 \<le> j \<and> j < i \<longrightarrow> Block_Validate L (?bs' ! j) (Some (?bs' ! (j - 1))) = Inr ()"
    proof (intro allI impI)
      fix j
      assume j: "1 \<le> j \<and> j < i"
      then have ne: "i \<noteq> j" "i \<noteq> j - 1"
        by arith+
      have "?bs' ! j = ?bs ! j"
        using ne(1) by (rule nth_list_update_neq)
      moreover have "?bs' ! (j - 1) = ?bs ! (j - 1)"
        using ne(2) by (rule nth_list_update_neq)
      moreover from j i all have "Block_Validate L (?bs ! j) (Some (?bs ! (j - 1))) = Inr ()"
        by simp
      ultimately show "Block_Validate L (?bs' ! j) (Some (?bs' ! (j - 1))) = Inr ()"
        by simp
    qed
    show "Block_Validate L (?bs' ! i) (Some (?bs' ! (i - 1))) = Inl err"
      using err i by simp
  qed
  then show ?thesis
    by (simp add: ValidateChain_def)
qed

text \<open>
  Claim C8. On a chain that \<open>ValidateChain\<close> accepts, giving the previous hash, the hash,
  the merkle root or the height of a block at an index \<open>i > 0\<close> any other value makes
  \<open>ValidateChain\<close> fail, and the error names the index \<open>i\<close>.
\<close>

theorem tampering_fails_at_block_index:
  assumes valid: "ValidateChain L bc = Inr ()"
    and i: "0 < i" "i < length (blocks bc)"
  shows "let b = blocks bc ! i;
             fails_at_i = (\<lambda>b'. \<exists>err. ValidateChain L (bc\<lparr>blocks := (blocks bc)[i := b']\<rparr>) = Inl (i, err))
         in (\<forall>v. v \<noteq> PreviousHash (Header b) \<longrightarrow> fails_at_i (b\<lparr>Header := (Header b)\<lparr>PreviousHash := v\<rparr>\<rparr>))
          \<and> (\<forall>v. v \<noteq> Hash (Header b) \<longrightarrow> fails_at_i (b\<lparr>Header := (Header b)\<lparr>Hash := v\<rparr>\<rparr>))
          \<and> (\<forall>v. v \<noteq> MerkleRoot (Header b) \<longrightarrow> fails_at_i (b\<lparr>Header := (Header b)\<lparr>MerkleRoot := v\<rparr>\<rparr>))
          \<and> (\<forall>v. v \<noteq> Height (Header b) \<longrightarrow> fails_at_i (b\<lparr>Header := (Header b)\<lparr>Height := v\<rparr>\<rparr>))"
proof -
  let ?b = "blocks bc ! i"
  let ?p = "blocks bc ! (i - 1)"
  from valid i have ok: "Block_Validate L ?b (Some ?p) = Inr ()"
    by (simp add: ValidateChain_def ValidateChain_loop_Inr)
  then have hash: "Hash (Header ?b) = calculateHash L ?b"
    and prev: "PreviousHash (Header ?b) = Hash (Header ?p)"
    and height: "Height (Header ?b) = Height (Header ?p) + 1"
    and root: "MerkleRoot (Header ?b) = calculateMerkleRoot L ?b"
    by (simp_all add: Block_Validate_Inr_iff)
  have "Block_Validate L (?b\<lparr>Header := (Header ?b)\<lparr>PreviousHash := v\<rparr>\<rparr>) (Some ?p) \<noteq> Inr ()"
    if "v \<noteq> PreviousHash (Header ?b)" for v
    using that prev by (simp add: Block_Validate_Inr_iff)
  moreover have "Block_Validate L (?b\<lparr>Header := (Header ?b)\<lparr>Hash := v\<rparr>\<rparr>) (Some ?p) \<noteq> Inr ()"
    if "v \<noteq> Hash (Header ?b)" for v
    using that hash by (simp add: Block_Validate_Inr_iff)
  moreover have "Block_Validate L (?b\<lparr>Header := (Header ?b)\<lparr>MerkleRoot := v\<rparr>\<rparr>) (Some ?p) \<noteq> Inr ()"
    if "v \<noteq> MerkleRoot (Header ?b)" for v
    using that root by (simp add: Block_Validate_Inr_iff)
  moreover have "Block_Validate L (?b\<lparr>Header := (Header ?b)\<lparr>Height := v\<rparr>\<rparr>) (Some ?p) \<noteq> Inr ()"
    if "v \<noteq> Height (Header ?b)" for v
    using that height by (simp add: Block_Validate_Inr_iff)
  ultimately show ?thesis
    using tampered_chain_fails_at [OF valid i] by (simp add: Let_def)
qed

lemma chain2_valid: "ValidateChain test_lib chain2 = Inr ()"
  apply (simp add: ValidateChain_def chain2_def)
  apply (subst ValidateChain_loop.simps)
  apply (simp add: block1_valid)
  apply (subst ValidateChain_loop.simps)
  apply simp
  done

text \<open>
  The claim on the chain of two blocks, for another height and another merkle root of block 1.
\<close>

theorem tampering_fails_at_block_index_witness:
  "ValidateChain test_lib chain2 = Inr ()
   \<and> (\<exists>err. ValidateChain test_lib
        (chain2\<lparr>blocks := (blocks chain2)[1 := block1\<lparr>Header := (Header block1)\<lparr>Height := 7\<rparr>\<rparr>]\<rparr>) = Inl (1, err))
   \<and> (\<exists>err. ValidateChain test_lib
        (chain2\<lparr>blocks := (blocks chain2)[1 := block1\<lparr>Header := (Header block1)\<lparr>MerkleRoot := replicate 64 CHR ''6''\<rparr>\<rparr>]\<rparr>) = Inl (1, err))"
proof -
  have i: "0 < (1 :: nat)" "1 < length (blocks chain2)" and b: "blocks chain2 ! Suc 0 = block1"
    by (simp_all add: chain2_def)
  have "(7 :: int64) \<noteq> Height (Header block1)" and "replicate 64 CHR ''6'' \<noteq> MerkleRoot (Header block1)"
    by (simp_all add: block1_fields)
  with tampering_fails_at_block_index [OF chain2_valid i] chain2_valid show ?thesis
    by (auto simp: Let_def b)
qed

end
